theory Spec2Isabelle
  imports Complex_Main "HOL-Library.Product_Lexorder" "HOL-Library.Multiset"
begin

section \<open>Numbers of the data frame\<close>

text \<open>
  A cell of a numeric column is an IEEE double. The model keeps the four kinds of value a
  double can be and computes on the finite ones with exact reals: rounding and the sign of
  zero are not modelled. \<open>NaN\<close> is pandas' missing-value marker.
\<close>

datatype float64 = Fin (fin: real) | PInf | NInf | NaN

fun isna :: "float64 \<Rightarrow> bool" where
  "isna NaN = True"
| "isna _ = False"

fun fneg :: "float64 \<Rightarrow> float64" where
  "fneg (Fin a) = Fin (- a)"
| "fneg PInf = NInf"
| "fneg NInf = PInf"
| "fneg NaN = NaN"

fun fadd :: "float64 \<Rightarrow> float64 \<Rightarrow> float64" where
  "fadd NaN _ = NaN"
| "fadd _ NaN = NaN"
| "fadd (Fin a) (Fin b) = Fin (a + b)"
| "fadd PInf NInf = NaN"
| "fadd NInf PInf = NaN"
| "fadd PInf _ = PInf"
| "fadd NInf _ = NInf"
| "fadd (Fin a) PInf = PInf"
| "fadd (Fin a) NInf = NInf"

definition fsub :: "float64 \<Rightarrow> float64 \<Rightarrow> float64" where
  "fsub a b = fadd a (fneg b)"

fun fsign :: "float64 \<Rightarrow> int" where
  "fsign (Fin a) = (if a < 0 then -1 else if a = 0 then 0 else 1)"
| "fsign PInf = 1"
| "fsign NInf = -1"
| "fsign NaN = 0"

definition signed_inf :: "int \<Rightarrow> float64" where
  "signed_inf s = (if s < 0 then NInf else if s = 0 then NaN else PInf)"

fun fmul :: "float64 \<Rightarrow> float64 \<Rightarrow> float64" where
  "fmul NaN _ = NaN"
| "fmul _ NaN = NaN"
| "fmul (Fin a) (Fin b) = Fin (a * b)"
| "fmul a b = signed_inf (fsign a * fsign b)"

text \<open>
  Division of a numpy array or scalar: a zero divisor gives an infinity or \<open>NaN\<close> and
  raises nothing.
\<close>

fun fdiv :: "float64 \<Rightarrow> float64 \<Rightarrow> float64" where
  "fdiv NaN _ = NaN"
| "fdiv _ NaN = NaN"
| "fdiv (Fin a) (Fin b) = (if b = 0 then signed_inf (fsign (Fin a)) else Fin (a / b))"
| "fdiv (Fin a) _ = Fin 0"
| "fdiv a (Fin b) = signed_inf (fsign a * (if b < 0 then -1 else 1))"
| "fdiv _ _ = NaN"

fun fabs :: "float64 \<Rightarrow> float64" where
  "fabs (Fin a) = Fin \<bar>a\<bar>"
| "fabs PInf = PInf"
| "fabs NInf = PInf"
| "fabs NaN = NaN"

text \<open>Comparisons: every comparison with \<open>NaN\<close> is false.\<close>

fun flt :: "float64 \<Rightarrow> float64 \<Rightarrow> bool" where
  "flt NaN _ = False"
| "flt _ NaN = False"
| "flt (Fin a) (Fin b) = (a < b)"
| "flt (Fin a) PInf = True"
| "flt (Fin a) NInf = False"
| "flt NInf (Fin b) = True"
| "flt NInf PInf = True"
| "flt NInf NInf = False"
| "flt PInf _ = False"

definition fgt :: "float64 \<Rightarrow> float64 \<Rightarrow> bool" where
  "fgt a b = flt b a"

fun fsqrt :: "float64 \<Rightarrow> float64" where
  "fsqrt (Fin a) = (if a < 0 then NaN else Fin (sqrt a))"
| "fsqrt PInf = PInf"
| "fsqrt NInf = NaN"
| "fsqrt NaN = NaN"

datatype error = ValueError | ZeroDivisionError

text \<open>Division of two Python floats: a zero divisor raises \<open>ZeroDivisionError\<close>.\<close>

definition py_truediv :: "float64 \<Rightarrow> float64 \<Rightarrow> error + float64" where
  "py_truediv a b = (if b = Fin 0 then Inl ZeroDivisionError else Inr (fdiv a b))"

section \<open>The data frame\<close>

text \<open>
  A row of the frame has the six columns of the CSV file. The columns change type as
  \<open>load_and_clean_data\<close> goes on, so the row type takes the type of the time column and
  the type of the five numeric columns as parameters.

  The time column as read: a text in the day-first format of the file stands for an
  instant (\<open>Stamp\<close>), an empty field is \<open>Blank\<close>, any other text is \<open>Garbled\<close>.
  A numeric column that \<open>read_csv\<close> could not parse as a whole keeps its fields as text.
\<close>

datatype time_cell = Stamp int | Blank | Garbled
datatype timestamp = Ts int | NaT
datatype cell = NumCell float64 | TextCell string

record ('t, 'c) frame_row =
  Gmt_time :: 't
  Open :: 'c
  High :: 'c
  Low :: 'c
  Close :: 'c
  Volume :: 'c

type_synonym raw_row = "(time_cell, cell) frame_row"
type_synonym obs = "(timestamp, float64) frame_row"

subsection \<open>data_loader.py: load_and_clean_data\<close>

text \<open>
  \<open>pd.to_datetime\<close> with a format: an empty field becomes \<open>NaT\<close>, a text that does not
  match the format raises \<open>ValueError\<close> and the load stops.
\<close>

fun as_timestamp :: "time_cell \<Rightarrow> timestamp" where
  "as_timestamp (Stamp n) = Ts n"
| "as_timestamp _ = NaT"

fun to_datetime :: "time_cell list \<Rightarrow> error + timestamp list" where
  "to_datetime [] = Inr []"
| "to_datetime (Garbled # cs) = Inl ValueError"
| "to_datetime (c # cs) =
     (case to_datetime cs of
        Inl e \<Rightarrow> Inl e
      | Inr ts \<Rightarrow> Inr (as_timestamp c # ts))"

definition set_time :: "raw_row \<Rightarrow> timestamp \<Rightarrow> (timestamp, cell) frame_row" where
  "set_time r t =
     \<lparr>Gmt_time = t, Open = Open r, High = High r, Low = Low r, Close = Close r,
      Volume = Volume r\<rparr>"

text \<open>\<open>drop_duplicates\<close> keeps the first of the rows that are equal in every column.\<close>

fun drop_duplicates :: "'a list \<Rightarrow> 'a list" where
  "drop_duplicates [] = []"
| "drop_duplicates (x # xs) = x # drop_duplicates (filter (\<lambda>y. y \<noteq> x) xs)"

text \<open>
  \<open>pd.to_numeric\<close> with \<open>errors='coerce'\<close>: a number stays, a text is parsed, and a
  text that is no number becomes \<open>NaN\<close>. The parser of numbers is pandas'; it is the
  parameter \<open>parse\<close>.
\<close>

fun to_numeric :: "(string \<Rightarrow> float64 option) \<Rightarrow> cell \<Rightarrow> float64" where
  "to_numeric parse (NumCell x) = x"
| "to_numeric parse (TextCell s) = (case parse s of Some x \<Rightarrow> x | None \<Rightarrow> NaN)"

definition coerce_row ::
  "(string \<Rightarrow> float64 option) \<Rightarrow> (timestamp, cell) frame_row \<Rightarrow> obs" where
  "coerce_row parse r =
     \<lparr>Gmt_time = Gmt_time r, Open = to_numeric parse (Open r),
      High = to_numeric parse (High r), Low = to_numeric parse (Low r),
      Close = to_numeric parse (Close r), Volume = to_numeric parse (Volume r)\<rparr>"

definition load_and_clean_data ::
  "(string \<Rightarrow> float64 option) \<Rightarrow> raw_row list \<Rightarrow> error + obs list" where
  "load_and_clean_data parse csv =
     (case to_datetime (map Gmt_time csv) of
        Inl e \<Rightarrow> Inl e
      | Inr ts \<Rightarrow>
          (let data = map2 set_time csv ts;
               data = drop_duplicates data;
               data = map (coerce_row parse) data;
               data = filter (\<lambda>r. Volume r \<noteq> Fin 0) data
           in Inr data))"

subsection \<open>Column statistics of pandas\<close>

definition fsum :: "float64 list \<Rightarrow> float64" where
  "fsum xs = foldl fadd (Fin 0) xs"

text \<open>\<open>Series.mean\<close> skips missing values; the mean of no value is \<open>NaN\<close>.\<close>

definition mean :: "float64 list \<Rightarrow> float64" where
  "mean xs =
     (let v = filter (\<lambda>x. \<not> isna x) xs
      in if v = [] then NaN else fdiv (fsum v) (Fin (real (length v))))"

text \<open>
  \<open>Series.std\<close> skips missing values and divides by the count less one; with fewer than
  two values the result is \<open>NaN\<close>.
\<close>

definition std :: "float64 list \<Rightarrow> float64" where
  "std xs =
     (let v = filter (\<lambda>x. \<not> isna x) xs; n = length v
      in if n \<le> 1 then NaN
         else (let avg = fdiv (fsum v) (Fin (real n));
                   sqr = map (\<lambda>x. fmul (fsub avg x) (fsub avg x)) v
               in fsqrt (fdiv (fsum sqr) (Fin (real (n - 1))))))"

fun fle :: "float64 \<Rightarrow> float64 \<Rightarrow> bool" where
  "fle a b = (a = b \<or> flt a b)"

fun insort_float :: "float64 \<Rightarrow> float64 list \<Rightarrow> float64 list" where
  "insort_float x [] = [x]"
| "insort_float x (y # ys) = (if fle x y then x # y # ys else y # insort_float x ys)"

definition sort_floats :: "float64 list \<Rightarrow> float64 list" where
  "sort_floats xs = foldr insort_float xs []"

text \<open>
  \<open>Series.quantile\<close> with linear interpolation, on the values that are not missing:
  the position \<open>q * (n - 1)\<close> in the sorted values, interpolated between its two
  neighbours the way numpy does it.
\<close>

definition lerp :: "float64 \<Rightarrow> float64 \<Rightarrow> real \<Rightarrow> float64" where
  "lerp a b t =
     (let diff_b_a = fsub b a
      in if t \<ge> 1 / 2 then fsub b (fmul diff_b_a (Fin (1 - t)))
         else fadd a (fmul diff_b_a (Fin t)))"

definition quantile :: "real \<Rightarrow> float64 list \<Rightarrow> float64" where
  "quantile q xs =
     (let v = sort_floats (filter (\<lambda>x. \<not> isna x) xs); n = length v
      in if n = 0 then NaN
         else (let pos = q * real (n - 1);
                   lo = nat \<lfloor>pos\<rfloor>;
                   hi = min (lo + 1) (n - 1)
               in lerp (v ! lo) (v ! hi) (pos - real lo)))"

subsection \<open>data_loader.py: detect_outliers\<close>

text \<open>
  \<open>Series.pct_change()\<close> is \<open>data / data.shift(1) - 1\<close>, where \<open>data\<close> is the column
  after the fill the installed pandas applies by default: forward fill (\<open>Pad\<close>) up to
  pandas 2, none (\<open>NoFill\<close>) from pandas 3. The repository pins no version, so the
  default is a parameter.
\<close>

datatype fill_method = Pad | NoFill

fun ffill_from :: "float64 \<Rightarrow> float64 list \<Rightarrow> float64 list" where
  "ffill_from prev [] = []"
| "ffill_from prev (x # xs) =
     (if isna x then prev # ffill_from prev xs else x # ffill_from x xs)"

definition ffill :: "float64 list \<Rightarrow> float64 list" where
  "ffill xs = ffill_from NaN xs"

definition shift :: "float64 list \<Rightarrow> float64 list" where
  "shift xs = (if xs = [] then [] else NaN # butlast xs)"

definition pct_change :: "fill_method \<Rightarrow> float64 list \<Rightarrow> float64 list" where
  "pct_change fm xs =
     (let data = (case fm of Pad \<Rightarrow> ffill xs | NoFill \<Rightarrow> xs)
      in map2 (\<lambda>a b. fsub (fdiv a b) (Fin 1)) data (shift data))"

record scored_row =
  base :: obs
  Return :: float64
  z_score :: float64
  is_outlier :: bool

definition detect_outliers :: "fill_method \<Rightarrow> obs list \<Rightarrow> real \<Rightarrow> scored_row list" where
  "detect_outliers fm data threshold =
     (let returns = pct_change fm (map Close data);
          kept = filter (\<lambda>(r, x). \<not> isna x) (zip data returns);
          mean_return = mean (map snd kept);
          std_return = std (map snd kept)
      in map (\<lambda>(r, x).
            (let z = fdiv (fsub x mean_return) std_return
             in \<lparr>base = r, Return = x, z_score = z,
                 is_outlier = fgt (fabs z) (Fin threshold)\<rparr>)) kept)"

subsection \<open>analysis.py: compute_guideline_deviation\<close>

record flagged_row =
  scored :: scored_row
  deviates_guideline :: bool

definition compute_guideline_deviation :: "scored_row list \<Rightarrow> flagged_row list" where
  "compute_guideline_deviation data =
     (let volume_min = quantile (5 / 100) (map (\<lambda>r. Volume (base r)) data);
          volume_max = quantile (95 / 100) (map (\<lambda>r. Volume (base r)) data);
          mean_return = mean (map Return data);
          std_return = std (map Return data);
          return_min = fsub mean_return (fmul (Fin 2) std_return);
          return_max = fadd mean_return (fmul (Fin 2) std_return)
      in map (\<lambda>row.
            \<lparr>scored = row,
             deviates_guideline =
               ((flt (Volume (base row)) volume_min \<or> fgt (Volume (base row)) volume_max) \<or>
                (flt (Return row) return_min \<or> fgt (Return row) return_max))\<rparr>) data)"

section \<open>create_graph.py\<close>

text \<open>
  The identifier of a trade is the ISO text of its timestamp. The text is used only to
  compare identifiers, and two timestamps have the same text only if they are equal, so
  the model takes the timestamp itself.
\<close>

type_synonym trade_id = timestamp

definition isoformat :: "timestamp \<Rightarrow> trade_id" where
  "isoformat t = t"

record trade =
  node_trade_id :: trade_id
  node_timestamp :: trade_id
  node_open :: float64
  node_high :: float64
  node_low :: float64
  node_close :: float64
  node_volume :: float64
  node_is_outlier :: bool
  node_deviates_guideline :: bool

text \<open>The writes to the graph store, one constructor for each of the three queries.\<close>

datatype store_write =
    CreateTrade trade
  | CreateNext trade_id trade_id
  | CreateSimilar trade_id trade_id float64

definition row_time :: "flagged_row \<Rightarrow> timestamp" where
  "row_time row = Gmt_time (base (scored row))"

definition create_trade_node :: "flagged_row \<Rightarrow> store_write" where
  "create_trade_node row =
     (let trade_timestamp = row_time row;
          trade_id = isoformat trade_timestamp
      in CreateTrade
           \<lparr>node_trade_id = trade_id, node_timestamp = isoformat trade_timestamp,
            node_open = Open (base (scored row)), node_high = High (base (scored row)),
            node_low = Low (base (scored row)), node_close = Close (base (scored row)),
            node_volume = Volume (base (scored row)),
            node_is_outlier = is_outlier (scored row),
            node_deviates_guideline = deviates_guideline row\<rparr>)"

definition create_trade_nodes :: "flagged_row list \<Rightarrow> store_write list" where
  "create_trade_nodes data = map create_trade_node data"

text \<open>
  \<open>sort_values(by="Gmt time")\<close> sorts ascending with \<open>NaT\<close> last. Only the identifiers
  of the sorted rows are read, so the order among rows of one timestamp does not show.
\<close>

fun time_key :: "timestamp \<Rightarrow> nat \<times> int" where
  "time_key (Ts n) = (0, n)"
| "time_key NaT = (1, 0)"

definition sort_values :: "flagged_row list \<Rightarrow> flagged_row list" where
  "sort_values data = sort_key (\<lambda>row. time_key (row_time row)) data"

definition trade_ids :: "flagged_row list \<Rightarrow> trade_id list" where
  "trade_ids data = map (\<lambda>row. isoformat (row_time row)) (sort_values data)"

definition consecutive_relationships :: "trade_id list \<Rightarrow> store_write list" where
  "consecutive_relationships ids =
     map (\<lambda>i. CreateNext (ids ! i) (ids ! (i + 1))) [0 ..< length ids - 1]"

definition SIMILAR_THRESHOLD :: real where
  "SIMILAR_THRESHOLD = 5 / 10000"

definition epsilon :: real where
  "epsilon = 1 / 1000000"

definition trade_list :: "flagged_row list \<Rightarrow> (trade_id \<times> float64) list" where
  "trade_list data = map (\<lambda>row. (isoformat (row_time row), Open (base (scored row)))) data"

text \<open>A sequence of steps stops at the first one that raises.\<close>

fun run_all :: "(error + 'a list) list \<Rightarrow> error + 'a list" where
  "run_all [] = Inr []"
| "run_all (Inl e # steps) = Inl e"
| "run_all (Inr ws # steps) =
     (case run_all steps of Inl e \<Rightarrow> Inl e | Inr vs \<Rightarrow> Inr (ws @ vs))"

definition similar_step ::
  "real \<Rightarrow> (trade_id \<times> float64) list \<Rightarrow> nat \<Rightarrow> nat \<Rightarrow> error + store_write list" where
  "similar_step threshold trades i j =
     (let price_diff = fabs (fsub (snd (trades ! i)) (snd (trades ! j)))
      in if flt price_diff (Fin threshold)
         then (case py_truediv (Fin 1) (fadd price_diff (Fin epsilon)) of
                 Inl e \<Rightarrow> Inl e
               | Inr similarity \<Rightarrow>
                   Inr [CreateSimilar (fst (trades ! i)) (fst (trades ! j)) similarity])
         else Inr [])"

definition similar_relationships ::
  "real \<Rightarrow> (trade_id \<times> float64) list \<Rightarrow> error + store_write list" where
  "similar_relationships threshold trades =
     run_all (map (\<lambda>i. run_all (map (\<lambda>j. similar_step threshold trades i j)
                                     [i + 1 ..< length trades]))
                  [0 ..< length trades])"

text \<open>
  The script as a whole: the writes it sends to the store, in order. An exception ends
  the run; the model then gives the exception.
\<close>

definition graph_writes :: "real \<Rightarrow> flagged_row list \<Rightarrow> error + store_write list" where
  "graph_writes threshold data =
     run_all [Inr (create_trade_nodes data),
              Inr (consecutive_relationships (trade_ids data)),
              similar_relationships threshold (trade_list data)]"

definition annotate :: "fill_method \<Rightarrow> obs list \<Rightarrow> flagged_row list" where
  "annotate fm cleaned = compute_guideline_deviation (detect_outliers fm cleaned 3)"

definition create_graph ::
  "(string \<Rightarrow> float64 option) \<Rightarrow> fill_method \<Rightarrow> raw_row list \<Rightarrow> error + store_write list" where
  "create_graph parse fm csv =
     (case load_and_clean_data parse csv of
        Inl e \<Rightarrow> Inl e
      | Inr data \<Rightarrow> graph_writes SIMILAR_THRESHOLD (annotate fm data))"

section \<open>visualization.py\<close>

text \<open>
  \<open>Chart.__init__\<close> builds a directed graph of the first 100 rows: the nodes and the
  edges of a \<open>networkx.DiGraph\<close> are sets, and \<open>add_edge\<close> adds the two ends of an edge
  to the nodes.
\<close>

definition Chart_init :: "flagged_row list \<Rightarrow> trade_id set \<times> (trade_id \<times> trade_id) set" where
  "Chart_init data =
     (let df = take 100 data;
          nodes = set (map (\<lambda>row. isoformat (row_time row)) df);
          ids = trade_ids df;
          edges = set (map (\<lambda>i. (ids ! i, ids ! (i + 1))) [0 ..< length ids - 1])
      in (nodes \<union> fst ` edges \<union> snd ` edges, edges))"

section \<open>Names and example inputs for the statements\<close>

text \<open>
  For the SIMILAR relationships: the index pairs in the order the two loops visit them,
  the test a pair has to pass, and the write a passing pair gives.
\<close>

definition index_pairs :: "nat \<Rightarrow> (nat \<times> nat) list" where
  "index_pairs n = concat (map (\<lambda>i. map (Pair i) [i + 1 ..< n]) [0 ..< n])"

definition near :: "real \<Rightarrow> (trade_id \<times> float64) list \<Rightarrow> nat \<times> nat \<Rightarrow> bool" where
  "near t trades = (\<lambda>(i, j). flt (fabs (fsub (snd (trades ! i)) (snd (trades ! j)))) (Fin t))"

definition similar_edge :: "(trade_id \<times> float64) list \<Rightarrow> nat \<times> nat \<Rightarrow> store_write" where
  "similar_edge trades =
     (\<lambda>(i, j). CreateSimilar (fst (trades ! i)) (fst (trades ! j))
        (Fin (1 / (\<bar>fin (snd (trades ! i)) - fin (snd (trades ! j))\<bar> + epsilon))))"


text \<open>
  A cleaned row with time \<open>t\<close>, open price \<open>po\<close>, close price \<open>pc\<close> and volume \<open>v\<close>.
  \<open>ex_obs\<close> has the returns 1, 2, 3 (mean 2, standard deviation 1); \<open>ex_flat\<close> has the
  returns 1, 1 (standard deviation 0).
\<close>

definition ob :: "int \<Rightarrow> real \<Rightarrow> real \<Rightarrow> real \<Rightarrow> obs" where
  "ob t po pc v =
     \<lparr>Gmt_time = Ts t, Open = Fin po, High = Fin po, Low = Fin po, Close = Fin pc,
      Volume = Fin v\<rparr>"

definition ex_obs :: "obs list" where
  "ex_obs = [ob 1 1 1 10, ob 2 1 2 20, ob 3 2 6 30, ob 4 6 24 1000]"


text \<open>
  For the loader: a row as read whose five numeric cells are all numbers, and a row as
  read with its time cell converted.
\<close>

definition numeric_row :: "raw_row \<Rightarrow> bool" where
  "numeric_row r = (\<exists>a b c d e. Open r = NumCell a \<and> High r = NumCell b \<and> Low r = NumCell c \<and>
      Close r = NumCell d \<and> Volume r = NumCell e)"

definition timed :: "raw_row \<Rightarrow> (timestamp, cell) frame_row" where
  "timed r = set_time r (as_timestamp (Gmt_time r))"

text \<open>
  Rows as read. \<open>raw\<close> is a row of numeric columns. \<open>ex_parse\<close> stands for the parser
  of numbers on the few texts the examples use; any other text is no number.
\<close>

definition raw_of :: "int \<Rightarrow> cell \<Rightarrow> cell \<Rightarrow> cell \<Rightarrow> raw_row" where
  "raw_of t po pc v =
     \<lparr>Gmt_time = Stamp t, Open = po, High = po, Low = po, Close = pc, Volume = v\<rparr>"

definition raw :: "int \<Rightarrow> real \<Rightarrow> real \<Rightarrow> real \<Rightarrow> raw_row" where
  "raw t po pc v = raw_of t (NumCell (Fin po)) (NumCell (Fin pc)) (NumCell (Fin v))"

definition ex_parse :: "string \<Rightarrow> float64 option" where
  "ex_parse s =
     (if s = ''1'' then Some (Fin 1) else if s = ''2'' then Some (Fin 2)
      else if s = ''4'' then Some (Fin 4) else if s = ''20'' then Some (Fin 20)
      else if s = ''30'' then Some (Fin 30) else None)"

definition ex_csv :: "raw_row list" where
  "ex_csv = [raw 1 1 1 10, raw 1 1 1 10, raw 2 1 2 0, raw 3 2 4 30]"

definition ex_csv_dup :: "raw_row list" where
  "ex_csv_dup = [raw 1 1 1 10, raw 5 1 2 20, raw 5 2 4 30]"

text \<open>
  For the returns: the close column after the fill of \<open>pct_change\<close>, the identifiers of
  the nodes among a list of writes, and the rows the annotator keeps with their returns.
\<close>

definition filled :: "fill_method \<Rightarrow> float64 list \<Rightarrow> float64 list" where
  "filled fm xs = (case fm of Pad \<Rightarrow> ffill xs | NoFill \<Rightarrow> xs)"

fun node_ids :: "store_write list \<Rightarrow> trade_id list" where
  "node_ids [] = []"
| "node_ids (CreateTrade t # ws) = node_trade_id t # node_ids ws"
| "node_ids (w # ws) = node_ids ws"

definition kept_rows :: "fill_method \<Rightarrow> obs list \<Rightarrow> (obs \<times> float64) list" where
  "kept_rows fm data =
     filter (\<lambda>(r, x). \<not> isna x) (zip data (pct_change fm (map Close data)))"

definition ex_csv_unsorted :: "raw_row list" where
  "ex_csv_unsorted = [raw 2 1 1 10, raw 1 1 2 20]"

text \<open>
  Files whose volume column holds a text that is no number, so that the whole column is
  read as text: in the first row (\<open>ex_csv_badvol\<close>) and in the second
  (\<open>ex_csv_midvol\<close>). \<open>nan_vol\<close> is a cleaned row with a missing volume.
\<close>

definition ex_csv_badvol :: "raw_row list" where
  "ex_csv_badvol =
     [raw_of 1 (NumCell (Fin 1)) (NumCell (Fin 1)) (TextCell ''abc''),
      raw_of 2 (NumCell (Fin 1)) (NumCell (Fin 2)) (TextCell ''20''),
      raw_of 3 (NumCell (Fin 2)) (NumCell (Fin 4)) (TextCell ''30'')]"

definition ex_csv_midvol :: "raw_row list" where
  "ex_csv_midvol =
     [raw_of 1 (NumCell (Fin 1)) (NumCell (Fin 1)) (TextCell ''20''),
      raw_of 2 (NumCell (Fin 1)) (NumCell (Fin 2)) (TextCell ''abc''),
      raw_of 3 (NumCell (Fin 2)) (NumCell (Fin 4)) (TextCell ''30'')]"

definition nan_vol :: "int \<Rightarrow> real \<Rightarrow> real \<Rightarrow> obs" where
  "nan_vol t po pc =
     \<lparr>Gmt_time = Ts t, Open = Fin po, High = Fin po, Low = Fin po, Close = Fin pc,
      Volume = NaN\<rparr>"

text \<open>
  Files whose close column holds a text that is no number, in the second row
  (\<open>ex_csv_badclose\<close>) and in the last (\<open>ex_csv_lastclose\<close>). \<open>nan_close\<close> is a
  cleaned row with a missing close.
\<close>

definition ex_csv_badclose :: "raw_row list" where
  "ex_csv_badclose =
     [raw_of 1 (NumCell (Fin 1)) (TextCell ''1'') (NumCell (Fin 10)),
      raw_of 2 (NumCell (Fin 1)) (TextCell ''abc'') (NumCell (Fin 20)),
      raw_of 3 (NumCell (Fin 2)) (TextCell ''2'') (NumCell (Fin 30))]"

definition ex_csv_lastclose :: "raw_row list" where
  "ex_csv_lastclose =
     [raw_of 1 (NumCell (Fin 1)) (TextCell ''1'') (NumCell (Fin 10)),
      raw_of 2 (NumCell (Fin 1)) (TextCell ''2'') (NumCell (Fin 20)),
      raw_of 3 (NumCell (Fin 2)) (TextCell ''abc'') (NumCell (Fin 30))]"

definition nan_close :: "int \<Rightarrow> real \<Rightarrow> real \<Rightarrow> obs" where
  "nan_close t po v =
     \<lparr>Gmt_time = Ts t, Open = Fin po, High = Fin po, Low = Fin po, Close = NaN,
      Volume = Fin v\<rparr>"

text \<open>
  For the order of the writes: the NEXT relationships among a list of writes, the
  identifiers a write refers to, and whether a write creates a node. \<open>ex_shuffled\<close> is
  \<open>ex_obs\<close> with the times of the second and third row exchanged; \<open>ex_csv_chain\<close> is a
  file of three rows with the same open price.
\<close>

fun next_edges :: "store_write list \<Rightarrow> (trade_id \<times> trade_id) list" where
  "next_edges [] = []"
| "next_edges (CreateNext a b # ws) = (a, b) # next_edges ws"
| "next_edges (CreateTrade t # ws) = next_edges ws"
| "next_edges (CreateSimilar a b s # ws) = next_edges ws"

fun endpoints :: "store_write \<Rightarrow> trade_id list" where
  "endpoints (CreateTrade t) = []"
| "endpoints (CreateNext a b) = [a, b]"
| "endpoints (CreateSimilar a b s) = [a, b]"

fun is_node_write :: "store_write \<Rightarrow> bool" where
  "is_node_write (CreateTrade t) = True"
| "is_node_write (CreateNext a b) = False"
| "is_node_write (CreateSimilar a b s) = False"

definition ex_shuffled :: "obs list" where
  "ex_shuffled = [ob 1 1 1 10, ob 3 1 2 20, ob 2 2 6 30, ob 4 6 24 1000]"

definition ex_csv_chain :: "raw_row list" where
  "ex_csv_chain = [raw 1 1 1 10, raw 2 1 2 20, raw 3 1 4 30]"

section \<open>The SIMILAR relationships\<close>

lemma run_all_Inr: "run_all (map (\<lambda>x. Inr (f x)) xs) = Inr (concat (map f xs))"
  by (induction xs) auto

lemma fabs_fsub_lt:
  assumes "flt (fabs (fsub a b)) (Fin t)"
  shows "\<exists>x y. a = Fin x \<and> b = Fin y \<and> \<bar>x - y\<bar> < t"
  using assms by (cases a; cases b) (auto simp: fsub_def)

lemma epsilon_pos: "0 < epsilon"
  by (simp add: epsilon_def)

text \<open>One pass of the loop body never raises: the divisor is at least \<open>epsilon\<close>.\<close>

lemma similar_step_eq:
  "similar_step t trades i j = Inr (map (similar_edge trades) (filter (near t trades) [(i, j)]))"
proof (cases "near t trades (i, j)")
  case True
  then obtain x y where xy: "snd (trades ! i) = Fin x" "snd (trades ! j) = Fin y" "\<bar>x - y\<bar> < t"
    using fabs_fsub_lt unfolding near_def by fastforce
  have "\<bar>x - y\<bar> + epsilon \<noteq> 0" using epsilon_pos by linarith
  with True xy show ?thesis
    by (simp add: similar_step_def near_def similar_edge_def py_truediv_def fsub_def)
next
  case False
  then show ?thesis by (simp add: similar_step_def near_def)
qed

lemma inner_loop_eq:
  "run_all (map (\<lambda>j. similar_step t trades i j) js) =
   Inr (map (similar_edge trades) (filter (near t trades) (map (Pair i) js)))"
proof -
  have "run_all (map (\<lambda>j. similar_step t trades i j) js) =
        Inr (concat (map (\<lambda>j. map (similar_edge trades) (filter (near t trades) [(i, j)])) js))"
    unfolding similar_step_eq by (rule run_all_Inr)
  also have "concat (map (\<lambda>j. map (similar_edge trades) (filter (near t trades) [(i, j)])) js) =
             map (similar_edge trades) (filter (near t trades) (map (Pair i) js))"
    by (induction js) auto
  finally show ?thesis .
qed

lemma similar_relationships_eq:
  "similar_relationships t trades =
   Inr (map (similar_edge trades) (filter (near t trades) (index_pairs (length trades))))"
proof -
  have "similar_relationships t trades =
        Inr (concat (map (\<lambda>i. map (similar_edge trades)
               (filter (near t trades) (map (Pair i) [i + 1 ..< length trades])))
               [0 ..< length trades]))"
    unfolding similar_relationships_def inner_loop_eq by (rule run_all_Inr)
  also have "concat (map (\<lambda>i. map (similar_edge trades)
               (filter (near t trades) (map (Pair i) [i + 1 ..< length trades])))
               [0 ..< length trades]) =
       map (similar_edge trades) (filter (near t trades) (index_pairs (length trades)))"
    unfolding index_pairs_def by (simp add: map_concat filter_concat comp_def)
  finally show ?thesis .
qed

lemma set_index_pairs: "set (index_pairs n) = {(i, j). i < j \<and> j < n}"
proof -
  have "(a, b) \<in> set (index_pairs n) \<longleftrightarrow> a < b \<and> b < n" for a b
    by (auto simp: index_pairs_def image_iff)
  then show ?thesis by auto
qed





section \<open>The annotator\<close>

subsection \<open>The return column\<close>

lemma length_ffill_from: "length (ffill_from p xs) = length xs"
  by (induction xs arbitrary: p) auto

lemma length_shift: "length (shift xs) = length xs"
  by (simp add: shift_def)

lemma length_pct_change: "length (pct_change fm xs) = length xs"
  by (cases fm) (simp_all add: pct_change_def Let_def length_shift ffill_def length_ffill_from)

lemma map_snd_filter_zip:
  assumes "length xs = length ys"
  shows "map snd (filter (\<lambda>(r, x). P x) (zip xs ys)) = filter P ys"
proof -
  have "map snd (filter (\<lambda>(r, x). P x) (zip xs ys)) = filter P (map snd (zip xs ys))"
    by (simp add: filter_map comp_def split_def)
  with assms show ?thesis by simp
qed

lemma kept_returns:
  "map snd (filter (\<lambda>(r, x). \<not> isna x) (zip data (pct_change fm (map Close data)))) =
   filter (\<lambda>x. \<not> isna x) (pct_change fm (map Close data))"
  by (simp add: map_snd_filter_zip length_pct_change)

lemma Return_detect_outliers:
  "map Return (detect_outliers fm data threshold) =
   filter (\<lambda>x. \<not> isna x) (pct_change fm (map Close data))"
proof -
  have "map Return (detect_outliers fm data threshold) =
        map snd (filter (\<lambda>(r, x). \<not> isna x) (zip data (pct_change fm (map Close data))))"
    by (simp add: detect_outliers_def Let_def comp_def split_def)
  then show ?thesis by (simp add: kept_returns)
qed


lemma mean_skipna: "mean (filter (\<lambda>x. \<not> isna x) xs) = mean xs"
  by (simp add: mean_def)

lemma std_skipna: "std (filter (\<lambda>x. \<not> isna x) xs) = std xs"
  by (simp add: std_def)

lemma detect_outliers_row:
  assumes "r \<in> set (detect_outliers fm data threshold)"
  shows "(is_outlier r \<longleftrightarrow> fgt (fabs (z_score r)) (Fin threshold)) \<and>
         z_score r =
           fdiv (fsub (Return r) (mean (pct_change fm (map Close data))))
                (std (pct_change fm (map Close data)))"
  using assms
  by (auto simp: detect_outliers_def Let_def kept_returns mean_skipna std_skipna)

lemma ex_obs_returns: "pct_change fm (map Close ex_obs) = [NaN, Fin 1, Fin 2, Fin 3]"
  by (cases fm) (simp_all add: pct_change_def ex_obs_def ob_def ffill_def shift_def fsub_def)

lemma ex_obs_mean: "mean [Fin 1, Fin 2, Fin 3] = Fin 2"
  by (simp add: mean_def fsum_def)

lemma ex_obs_std: "std [Fin 1, Fin 2, Fin 3] = Fin 1"
  by (simp add: std_def fsum_def fsub_def)

lemma ex_obs_scored:
  "detect_outliers fm ex_obs (1 / 2) =
     [\<lparr>base = ob 2 1 2 20, Return = Fin 1, z_score = Fin (- 1), is_outlier = True\<rparr>,
      \<lparr>base = ob 3 2 6 30, Return = Fin 2, z_score = Fin 0, is_outlier = False\<rparr>,
      \<lparr>base = ob 4 6 24 1000, Return = Fin 3, z_score = Fin 1, is_outlier = True\<rparr>]"
  by (simp add: detect_outliers_def Let_def ex_obs_returns)
    (simp add: ex_obs_def fsub_def fgt_def ex_obs_mean ex_obs_std)

subsection \<open>Outliers\<close>

text \<open>
  C3. The returns of the rows the annotator keeps are the returns of the whole frame that
  are not missing. For every row it keeps, \<open>is_outlier\<close> holds if and only if the
  absolute z-score is above the threshold, and the z-score is the return less the mean,
  divided by the standard deviation, both taken over the return column of the whole
  frame.
\<close>

theorem outlier_iff_z_score:
  "map Return (detect_outliers fm data threshold) =
     filter (\<lambda>x. \<not> isna x) (pct_change fm (map Close data)) \<and>
   (\<forall>r \<in> set (detect_outliers fm data threshold).
      (is_outlier r \<longleftrightarrow> fgt (fabs (z_score r)) (Fin threshold)) \<and>
      z_score r =
        fdiv (fsub (Return r) (mean (pct_change fm (map Close data))))
             (std (pct_change fm (map Close data))))"
  using Return_detect_outliers detect_outliers_row by blast

text \<open>
  Four rows with the closes 1, 2, 6, 24 and the threshold \<open>1 / 2\<close>: the z-scores of the
  three rows kept are -1, 0 and 1, and the first is an outlier.
\<close>

theorem outlier_iff_z_score_witness:
  "map z_score (detect_outliers Pad ex_obs (1 / 2)) = [Fin (- 1), Fin 0, Fin 1] \<and>
   is_outlier (detect_outliers Pad ex_obs (1 / 2) ! 0) \<and>
   fgt (fabs (z_score (detect_outliers Pad ex_obs (1 / 2) ! 0))) (Fin (1 / 2)) \<and>
   z_score (detect_outliers Pad ex_obs (1 / 2) ! 0) =
     fdiv (fsub (Return (detect_outliers Pad ex_obs (1 / 2) ! 0))
                (mean (pct_change Pad (map Close ex_obs))))
          (std (pct_change Pad (map Close ex_obs)))"
proof -
  let ?out = "detect_outliers Pad ex_obs (1 / 2)"
  have mem: "?out ! 0 \<in> set ?out" by (simp add: ex_obs_scored)
  have out: "is_outlier (?out ! 0)" by (simp add: ex_obs_scored)
  have zs: "map z_score ?out = [Fin (- 1), Fin 0, Fin 1]" by (simp add: ex_obs_scored)
  from outlier_iff_z_score [of Pad ex_obs "1 / 2"] mem
  have "(is_outlier (?out ! 0) \<longleftrightarrow> fgt (fabs (z_score (?out ! 0))) (Fin (1 / 2))) \<and>
        z_score (?out ! 0) =
          fdiv (fsub (Return (?out ! 0)) (mean (pct_change Pad (map Close ex_obs))))
               (std (pct_change Pad (map Close ex_obs)))"
    by blast
  with out zs show ?thesis by blast
qed

subsection \<open>A return column without spread\<close>














subsection \<open>Deviation from the guideline\<close>

lemma ex_flagged:
  "map deviates_guideline (compute_guideline_deviation (detect_outliers fm ex_obs (1 / 2))) =
     [True, False, True]"
  unfolding ex_obs_scored
  by (simp add: compute_guideline_deviation_def Let_def quantile_def sort_floats_def lerp_def
      fsub_def fgt_def ob_def ex_obs_mean ex_obs_std)

text \<open>
  C4. \<open>compute_guideline_deviation\<close> keeps every row and adds the flag. The flag of a row
  holds if and only if its volume is below the 5th or above the 95th percentile of the
  volumes of all rows, or its return is below the mean less twice the standard deviation
  or above the mean plus twice the standard deviation of the returns of all rows.
\<close>

theorem deviates_iff_outside_bands:
  "map scored (compute_guideline_deviation data) = data \<and>
   (\<forall>row \<in> set (compute_guideline_deviation data).
      deviates_guideline row \<longleftrightarrow>
        (flt (Volume (base (scored row))) (quantile (5 / 100) (map (\<lambda>r. Volume (base r)) data)) \<or>
         fgt (Volume (base (scored row))) (quantile (95 / 100) (map (\<lambda>r. Volume (base r)) data))) \<or>
        (flt (Return (scored row))
           (fsub (mean (map Return data)) (fmul (Fin 2) (std (map Return data)))) \<or>
         fgt (Return (scored row))
           (fadd (mean (map Return data)) (fmul (Fin 2) (std (map Return data))))))"
proof
  show "map scored (compute_guideline_deviation data) = data"
    by (simp add: compute_guideline_deviation_def Let_def comp_def)
next
  show "\<forall>row \<in> set (compute_guideline_deviation data).
      deviates_guideline row \<longleftrightarrow>
        (flt (Volume (base (scored row))) (quantile (5 / 100) (map (\<lambda>r. Volume (base r)) data)) \<or>
         fgt (Volume (base (scored row))) (quantile (95 / 100) (map (\<lambda>r. Volume (base r)) data))) \<or>
        (flt (Return (scored row))
           (fsub (mean (map Return data)) (fmul (Fin 2) (std (map Return data)))) \<or>
         fgt (Return (scored row))
           (fadd (mean (map Return data)) (fmul (Fin 2) (std (map Return data)))))"
    by (auto simp: compute_guideline_deviation_def Let_def)
qed

text \<open>
  The three rows kept of \<open>ex_obs\<close> have the volumes 20, 30 and 1000; the percentiles are
  21 and 903, so the first row and the last deviate by volume and the middle one does
  not. All three returns are within the band from 0 to 4.
\<close>

theorem deviates_iff_outside_bands_witness:
  "map deviates_guideline (compute_guideline_deviation (detect_outliers Pad ex_obs (1 / 2))) =
     [True, False, True] \<and>
   quantile (5 / 100) (map (\<lambda>r. Volume (base r)) (detect_outliers Pad ex_obs (1 / 2))) = Fin 21 \<and>
   quantile (95 / 100) (map (\<lambda>r. Volume (base r)) (detect_outliers Pad ex_obs (1 / 2))) = Fin 903 \<and>
   map scored (compute_guideline_deviation (detect_outliers Pad ex_obs (1 / 2))) =
     detect_outliers Pad ex_obs (1 / 2)"
proof -
  have q5: "quantile (5 / 100) (map (\<lambda>r. Volume (base r)) (detect_outliers Pad ex_obs (1 / 2))) =
            Fin 21"
    unfolding ex_obs_scored
    by (simp add: quantile_def sort_floats_def lerp_def fsub_def ob_def)
  have q95: "quantile (95 / 100) (map (\<lambda>r. Volume (base r)) (detect_outliers Pad ex_obs (1 / 2))) =
            Fin 903"
    unfolding ex_obs_scored
    by (simp add: quantile_def sort_floats_def lerp_def fsub_def ob_def)
  from deviates_iff_outside_bands [of "detect_outliers Pad ex_obs (1 / 2)"]
  have "map scored (compute_guideline_deviation (detect_outliers Pad ex_obs (1 / 2))) =
     detect_outliers Pad ex_obs (1 / 2)" by blast
  with ex_flagged q5 q95 show ?thesis by blast
qed

section \<open>The loader\<close>

lemma to_datetime_Inr:
  "to_datetime cs = Inr ts \<longleftrightarrow> Garbled \<notin> set cs \<and> ts = map as_timestamp cs"
proof (induction cs arbitrary: ts)
  case Nil
  then show ?case by auto
next
  case (Cons c cs)
  show ?case
  proof (cases c)
    case Garbled
    then show ?thesis by simp
  next
    case (Stamp n)
    then show ?thesis using Cons.IH by (cases "to_datetime cs") auto
  next
    case Blank
    then show ?thesis using Cons.IH by (cases "to_datetime cs") auto
  qed
qed

lemma map2_set_time: "map2 set_time csv (map as_timestamp (map Gmt_time csv)) = map timed csv"
  by (induction csv) (simp_all add: timed_def)

lemma load_and_clean_data_Inr:
  "load_and_clean_data parse csv = Inr data \<longleftrightarrow>
     Garbled \<notin> set (map Gmt_time csv) \<and>
     data = filter (\<lambda>r. Volume r \<noteq> Fin 0)
              (map (coerce_row parse) (drop_duplicates (map timed csv)))"
proof (cases "to_datetime (map Gmt_time csv)")
  case (Inl e)
  then have "Garbled \<in> set (map Gmt_time csv)"
    using to_datetime_Inr[of "map Gmt_time csv"] by (metis sum.distinct(1))
  with Inl show ?thesis by (simp add: load_and_clean_data_def)
next
  case (Inr ts)
  then have "Garbled \<notin> set (map Gmt_time csv)" "ts = map as_timestamp (map Gmt_time csv)"
    using to_datetime_Inr by blast+
  with Inr show ?thesis
    by (auto simp: load_and_clean_data_def Let_def map2_set_time simp del: set_map map_map)
qed

lemma set_drop_duplicates: "set (drop_duplicates xs) = set xs"
proof (induction xs rule: drop_duplicates.induct)
  case 1
  then show ?case by simp
next
  case (2 x xs)
  then show ?case by auto
qed

lemma distinct_drop_duplicates: "distinct (drop_duplicates xs)"
proof (induction xs rule: drop_duplicates.induct)
  case 1
  then show ?case by simp
next
  case (2 x xs)
  then show ?case by (simp add: set_drop_duplicates)
qed

lemma coerce_row_inj:
  assumes "numeric_row r" "numeric_row s" "coerce_row parse (timed r) = coerce_row parse (timed s)"
  shows "timed r = timed s"
proof -
  from assms(3) have "Gmt_time (timed r) = Gmt_time (timed s)"
    "to_numeric parse (Open (timed r)) = to_numeric parse (Open (timed s))"
    "to_numeric parse (High (timed r)) = to_numeric parse (High (timed s))"
    "to_numeric parse (Low (timed r)) = to_numeric parse (Low (timed s))"
    "to_numeric parse (Close (timed r)) = to_numeric parse (Close (timed s))"
    "to_numeric parse (Volume (timed r)) = to_numeric parse (Volume (timed s))"
    by (simp_all add: coerce_row_def)
  with assms(1,2) show ?thesis
    by (auto simp: numeric_row_def timed_def set_time_def)
qed

text \<open>
  C6, as amended. When the load succeeds, no cleaned row has the volume 0. When every
  numeric cell of the file was read as a number, no two cleaned rows are equal in all six
  columns. Timestamps may repeat: only rows equal in every column are dropped.
\<close>

theorem cleaned_rows:
  assumes "load_and_clean_data parse csv = Inr data"
  shows "(\<forall>r \<in> set data. Volume r \<noteq> Fin 0) \<and>
         ((\<forall>r \<in> set csv. numeric_row r) \<longrightarrow> distinct data)"
proof -
  let ?rows = "drop_duplicates (map timed csv)"
  from assms have data: "data = filter (\<lambda>r. Volume r \<noteq> Fin 0) (map (coerce_row parse) ?rows)"
    using load_and_clean_data_Inr by blast
  then have vol: "\<forall>r \<in> set data. Volume r \<noteq> Fin 0" by simp
  have "distinct data" if num: "\<forall>r \<in> set csv. numeric_row r"
  proof -
    have "inj_on (coerce_row parse) (set ?rows)"
      unfolding set_drop_duplicates inj_on_def using num coerce_row_inj by auto
    then have "distinct (map (coerce_row parse) ?rows)"
      by (simp add: distinct_map distinct_drop_duplicates)
    then show ?thesis unfolding data by (rule distinct_filter)
  qed
  with vol show ?thesis by blast
qed

lemma ex_csv_cleaned:
  "load_and_clean_data ex_parse ex_csv = Inr [ob 1 1 1 10, ob 3 2 4 30]"
  by (simp add: load_and_clean_data_def ex_csv_def raw_def raw_of_def set_time_def
      coerce_row_def ob_def)

lemma numeric_raw: "numeric_row (raw t po pc v)"
  by (simp add: numeric_row_def raw_def raw_of_def)

text \<open>
  Four rows, the second a copy of the first and the third with volume 0: the first and
  the last remain.
\<close>

theorem cleaned_rows_witness:
  "load_and_clean_data ex_parse ex_csv = Inr [ob 1 1 1 10, ob 3 2 4 30] \<and>
   Volume (ob 1 1 1 10) \<noteq> Fin 0 \<and> Volume (ob 3 2 4 30) \<noteq> Fin 0 \<and>
   distinct [ob 1 1 1 10, ob 3 2 4 30]"
proof -
  have num: "\<forall>r \<in> set ex_csv. numeric_row r" by (simp add: ex_csv_def numeric_raw)
  from cleaned_rows [OF ex_csv_cleaned] num
  have "(\<forall>r \<in> set [ob 1 1 1 10, ob 3 2 4 30]. Volume r \<noteq> Fin 0) \<and>
        distinct [ob 1 1 1 10, ob 3 2 4 30]" by blast
  with ex_csv_cleaned show ?thesis by simp
qed

text \<open>
  C6 as stated fails: two rows with the timestamp 5 and different prices are both kept.
\<close>

theorem timestamps_not_unique:
  "load_and_clean_data ex_parse ex_csv_dup = Inr [ob 1 1 1 10, ob 5 1 2 20, ob 5 2 4 30] \<and>
   map Gmt_time [ob 1 1 1 10, ob 5 1 2 20, ob 5 2 4 30] = [Ts 1, Ts 5, Ts 5] \<and>
   \<not> distinct (map Gmt_time [ob 1 1 1 10, ob 5 1 2 20, ob 5 2 4 30])"
  by (simp add: load_and_clean_data_def ex_csv_dup_def raw_def raw_of_def set_time_def
      coerce_row_def ob_def)

section \<open>Returns and the rows dropped\<close>

lemma length_filled: "length (filled fm xs) = length xs"
  by (cases fm) (simp_all add: filled_def ffill_def length_ffill_from)

lemma fdiv_NaN_right: "fdiv a NaN = NaN"
  by (cases a) simp_all

lemma fsub_NaN_left: "fsub NaN b = NaN"
  by (simp add: fsub_def)

lemma shift_nth: "k < length xs \<Longrightarrow> shift xs ! k = (if k = 0 then NaN else xs ! (k - 1))"
  by (cases k) (auto simp: shift_def nth_butlast)

lemma pct_change_nth:
  assumes "k < length xs"
  shows "pct_change fm xs ! k =
         (if k = 0 then NaN
          else fsub (fdiv (filled fm xs ! k) (filled fm xs ! (k - 1))) (Fin 1))"
proof -
  have "pct_change fm xs = map2 (\<lambda>a b. fsub (fdiv a b) (Fin 1)) (filled fm xs) (shift (filled fm xs))"
    by (simp add: pct_change_def filled_def Let_def)
  with assms show ?thesis
    by (simp add: length_filled length_shift shift_nth fdiv_NaN_right fsub_NaN_left)
qed

lemma ffill_from_nth:
  "k < length xs \<Longrightarrow> \<not> isna (xs ! k) \<Longrightarrow> ffill_from p xs ! k = xs ! k"
proof (induction xs arbitrary: p k)
  case Nil
  then show ?case by simp
next
  case (Cons x xs)
  then show ?case by (cases k) auto
qed

lemma filled_nth: "k < length xs \<Longrightarrow> \<not> isna (xs ! k) \<Longrightarrow> filled fm xs ! k = xs ! k"
  by (cases fm) (simp_all add: filled_def ffill_def ffill_from_nth)

lemma pct_change_first: "xs \<noteq> [] \<Longrightarrow> pct_change fm xs ! 0 = NaN"
  by (simp add: pct_change_nth)

lemma pct_change_finite:
  assumes "0 < k" "k < length xs" "xs ! k = Fin a" "xs ! (k - 1) = Fin b" "b \<noteq> 0"
  shows "pct_change fm xs ! k = Fin ((a - b) / b)"
proof -
  have "filled fm xs ! k = Fin a" "filled fm xs ! (k - 1) = Fin b"
    using assms by (simp_all add: filled_nth)
  then have "pct_change fm xs ! k = Fin (a / b - 1)"
    using assms by (simp add: pct_change_nth fsub_def)
  moreover have "a / b - 1 = (a - b) / b" using assms(5) by (simp add: field_simps)
  ultimately show ?thesis by simp
qed

lemma kept_rows_tl:
  "kept_rows fm data = filter (\<lambda>(r, x). \<not> isna x) (zip (tl data) (tl (pct_change fm (map Close data))))"
proof (cases data)
  case Nil
  then show ?thesis by (simp add: kept_rows_def)
next
  case (Cons r rs)
  let ?rets = "pct_change fm (map Close data)"
  have len: "length ?rets = length data" by (simp add: length_pct_change)
  then obtain x xs where rets: "?rets = x # xs" using Cons by (cases ?rets) auto
  have "?rets ! 0 = NaN" using Cons by (simp add: pct_change_first)
  with rets have "x = NaN" by simp
  with Cons rets show ?thesis by (simp add: kept_rows_def)
qed

lemma detect_outliers_kept:
  "map (\<lambda>r. (base r, Return r)) (detect_outliers fm data threshold) = kept_rows fm data"
  by (simp add: detect_outliers_def kept_rows_def Let_def comp_def split_def)

lemma annotate_kept:
  "map (\<lambda>row. (base (scored row), Return (scored row))) (annotate fm data) = kept_rows fm data"
proof -
  have "map scored (annotate fm data) = detect_outliers fm data 3"
    by (simp add: annotate_def compute_guideline_deviation_def Let_def comp_def)
  then have "map (\<lambda>r. (base r, Return r)) (map scored (annotate fm data)) = kept_rows fm data"
    by (simp only: detect_outliers_kept)
  then show ?thesis by (simp add: comp_def)
qed

lemma node_ids_create_trade_nodes:
  "node_ids (create_trade_nodes rows) = map (\<lambda>row. isoformat (row_time row)) rows"
  by (induction rows) (simp_all add: create_trade_nodes_def create_trade_node_def Let_def)

lemma node_ids_annotate:
  "node_ids (create_trade_nodes (annotate fm data)) =
   map (\<lambda>(r, x). isoformat (Gmt_time r)) (kept_rows fm data)"
proof -
  have "map (\<lambda>(r, x). isoformat (Gmt_time r)) (kept_rows fm data) =
        map (\<lambda>(r, x). isoformat (Gmt_time r))
          (map (\<lambda>row. (base (scored row), Return (scored row))) (annotate fm data))"
    by (simp only: annotate_kept)
  then show ?thesis
    by (simp add: node_ids_create_trade_nodes comp_def row_time_def)
qed

lemma first_time_not_kept:
  assumes "distinct (map Gmt_time data)" "data \<noteq> []"
  shows "isoformat (Gmt_time (hd data)) \<notin> set (node_ids (create_trade_nodes (annotate fm data)))"
proof -
  obtain r rs where data: "data = r # rs" using assms(2) by (cases data) auto
  have sub: "set (kept_rows fm data) \<subseteq> set (zip rs (tl (pct_change fm (map Close data))))"
    unfolding kept_rows_tl data by auto
  have "a \<in> set rs" if "(a, b) \<in> set (kept_rows fm data)" for a b
  proof -
    from that sub have "(a, b) \<in> set (zip rs (tl (pct_change fm (map Close data))))" by blast
    then show ?thesis by (rule set_zip_leftD)
  qed
  moreover have "Gmt_time r \<notin> Gmt_time ` set rs" using assms(1) data by simp
  ultimately have "Gmt_time r \<notin> (\<lambda>(a, b). Gmt_time a) ` set (kept_rows fm data)"
    by force
  then show ?thesis
    unfolding node_ids_annotate data by (simp add: isoformat_def)
qed

text \<open>
  C5, as amended. "Previous" is the previous row of the cleaned frame as it stands, in file
  order; the frame is never sorted before the returns are taken. The first row of the
  frame has no return. For a later row whose close and whose predecessor's close are
  finite numbers, the predecessor's not zero, the return is
  \<open>(close - previous close) / previous close\<close>. The annotator keeps exactly the rows
  after the first whose return is not missing, the nodes are created from exactly the rows
  kept, and when the timestamps of the frame are all different no node has the timestamp
  of the first row.
\<close>

theorem returns_in_row_order:
  "(data \<noteq> [] \<longrightarrow> pct_change fm (map Close data) ! 0 = NaN) \<and>
   (\<forall>k a b. 0 < k \<and> k < length data \<and> Close (data ! k) = Fin a \<and>
       Close (data ! (k - 1)) = Fin b \<and> b \<noteq> 0 \<longrightarrow>
       pct_change fm (map Close data) ! k = Fin ((a - b) / b)) \<and>
   map (\<lambda>r. (base r, Return r)) (detect_outliers fm data threshold) =
     filter (\<lambda>(r, x). \<not> isna x) (zip (tl data) (tl (pct_change fm (map Close data)))) \<and>
   node_ids (create_trade_nodes (annotate fm data)) =
     map (\<lambda>r. isoformat (Gmt_time (base r))) (detect_outliers fm data threshold) \<and>
   (data \<noteq> [] \<and> distinct (map Gmt_time data) \<longrightarrow>
      isoformat (Gmt_time (hd data)) \<notin> set (node_ids (create_trade_nodes (annotate fm data))))"
proof (intro conjI)
  show "data \<noteq> [] \<longrightarrow> pct_change fm (map Close data) ! 0 = NaN"
    by (simp add: pct_change_first)
  show "\<forall>k a b. 0 < k \<and> k < length data \<and> Close (data ! k) = Fin a \<and>
       Close (data ! (k - 1)) = Fin b \<and> b \<noteq> 0 \<longrightarrow>
       pct_change fm (map Close data) ! k = Fin ((a - b) / b)"
    by (auto intro!: pct_change_finite)
  show "map (\<lambda>r. (base r, Return r)) (detect_outliers fm data threshold) =
     filter (\<lambda>(r, x). \<not> isna x) (zip (tl data) (tl (pct_change fm (map Close data))))"
    by (simp only: detect_outliers_kept kept_rows_tl)
  have "map (\<lambda>r. isoformat (Gmt_time (base r))) (detect_outliers fm data threshold) =
        map (\<lambda>(r, x). isoformat (Gmt_time r))
          (map (\<lambda>r. (base r, Return r)) (detect_outliers fm data threshold))"
    by (simp add: comp_def)
  then show "node_ids (create_trade_nodes (annotate fm data)) =
     map (\<lambda>r. isoformat (Gmt_time (base r))) (detect_outliers fm data threshold)"
    by (simp only: node_ids_annotate detect_outliers_kept)
  show "data \<noteq> [] \<and> distinct (map Gmt_time data) \<longrightarrow>
      isoformat (Gmt_time (hd data)) \<notin> set (node_ids (create_trade_nodes (annotate fm data)))"
    using first_time_not_kept by blast
qed

lemma ex_obs_kept:
  "kept_rows fm ex_obs = [(ob 2 1 2 20, Fin 1), (ob 3 2 6 30, Fin 2), (ob 4 6 24 1000, Fin 3)]"
  by (simp add: kept_rows_def ex_obs_returns) (simp add: ex_obs_def)

text \<open>
  The four rows of \<open>ex_obs\<close>: the first has no return, the second has the return
  \<open>(2 - 1) / 1\<close>, and the nodes are those of the times 2, 3 and 4.
\<close>

theorem returns_in_row_order_witness:
  "pct_change Pad (map Close ex_obs) ! 0 = NaN \<and>
   pct_change Pad (map Close ex_obs) ! 1 = Fin ((2 - 1) / 1) \<and>
   node_ids (create_trade_nodes (annotate Pad ex_obs)) = [Ts 2, Ts 3, Ts 4] \<and>
   isoformat (Gmt_time (hd ex_obs)) = Ts 1 \<and>
   isoformat (Gmt_time (hd ex_obs)) \<notin> set (node_ids (create_trade_nodes (annotate Pad ex_obs)))"
proof -
  note main = returns_in_row_order [of ex_obs Pad 3]
  have ne: "ex_obs \<noteq> []" by (simp add: ex_obs_def)
  have dist: "distinct (map Gmt_time ex_obs)" by (simp add: ex_obs_def ob_def)
  have k: "0 < (1::nat) \<and> 1 < length ex_obs \<and> Close (ex_obs ! 1) = Fin 2 \<and>
           Close (ex_obs ! (1 - 1)) = Fin 1 \<and> (1::real) \<noteq> 0"
    by (simp add: ex_obs_def ob_def)
  from main ne have 1: "pct_change Pad (map Close ex_obs) ! 0 = NaN" by blast
  from main k have 2: "pct_change Pad (map Close ex_obs) ! 1 = Fin ((2 - 1) / 1)" by blast
  from main ne dist have 3:
    "isoformat (Gmt_time (hd ex_obs)) \<notin> set (node_ids (create_trade_nodes (annotate Pad ex_obs)))"
    by blast
  have 4: "node_ids (create_trade_nodes (annotate Pad ex_obs)) = [Ts 2, Ts 3, Ts 4]"
    by (simp add: node_ids_annotate ex_obs_kept ob_def isoformat_def)
  have 5: "isoformat (Gmt_time (hd ex_obs)) = Ts 1"
    by (simp add: ex_obs_def ob_def isoformat_def)
  from 1 2 3 4 5 show ?thesis by blast
qed

lemma ex_unsorted_cleaned:
  "load_and_clean_data ex_parse ex_csv_unsorted = Inr [ob 2 1 1 10, ob 1 1 2 20]"
  by (simp add: load_and_clean_data_def ex_csv_unsorted_def raw_def raw_of_def set_time_def
      coerce_row_def ob_def)

lemma ex_unsorted_returns: "pct_change fm [Fin 1, Fin 2] = [NaN, Fin 1]"
  by (cases fm) (simp_all add: pct_change_def ffill_def shift_def fsub_def)

lemma ex_unsorted_scored:
  "detect_outliers fm [ob 2 1 1 10, ob 1 1 2 20] 3 =
     [\<lparr>base = ob 1 1 2 20, Return = Fin 1, z_score = NaN, is_outlier = False\<rparr>]"
  by (simp add: detect_outliers_def Let_def ob_def ex_unsorted_returns)
    (simp add: mean_def std_def fsum_def fsub_def fgt_def)

lemma ex_unsorted_flagged:
  "annotate fm [ob 2 1 1 10, ob 1 1 2 20] =
     [\<lparr>scored = \<lparr>base = ob 1 1 2 20, Return = Fin 1, z_score = NaN, is_outlier = False\<rparr>,
       deviates_guideline = False\<rparr>]"
  unfolding annotate_def ex_unsorted_scored
  by (simp add: compute_guideline_deviation_def Let_def quantile_def sort_floats_def lerp_def
      fsub_def fgt_def ob_def mean_def std_def fsum_def)

text \<open>
  C5 as stated fails on a file that is not in time order. The file has the row of time 2
  (close 1) before the row of time 1 (close 2). The row dropped is the first of the file,
  the one of time 2. The earliest observation, of time 1, is kept with the return
  \<open>(2 - 1) / 1\<close> taken against the later row, and it is the one node of the graph.
\<close>

theorem first_chronological_row_kept:
  "create_graph ex_parse Pad ex_csv_unsorted =
     Inr [CreateTrade
            \<lparr>node_trade_id = Ts 1, node_timestamp = Ts 1, node_open = Fin 1, node_high = Fin 1,
             node_low = Fin 1, node_close = Fin 2, node_volume = Fin 20,
             node_is_outlier = False, node_deviates_guideline = False\<rparr>] \<and>
   map Return (detect_outliers Pad [ob 2 1 1 10, ob 1 1 2 20] 3) = [Fin ((2 - 1) / 1)]"
  by (simp add: create_graph_def ex_unsorted_cleaned ex_unsorted_flagged ex_unsorted_scored
      graph_writes_def create_trade_nodes_def create_trade_node_def Let_def row_time_def
      isoformat_def trade_ids_def sort_values_def consecutive_relationships_def trade_list_def
      similar_relationships_def)
    (simp add: ob_def)

section \<open>Rows with a missing volume\<close>

lemma in_cleaned:
  assumes "load_and_clean_data parse csv = Inr data" and "r \<in> set csv"
    and "to_numeric parse (Volume r) \<noteq> Fin 0"
  shows "coerce_row parse (timed r) \<in> set data"
proof -
  from assms(1) have data: "data = filter (\<lambda>r. Volume r \<noteq> Fin 0)
              (map (coerce_row parse) (drop_duplicates (map timed csv)))"
    using load_and_clean_data_Inr by blast
  have "timed r \<in> set (drop_duplicates (map timed csv))"
    using assms(2) by (simp add: set_drop_duplicates)
  moreover have "Volume (coerce_row parse (timed r)) \<noteq> Fin 0"
    using assms(3) by (simp add: coerce_row_def timed_def set_time_def)
  ultimately show ?thesis unfolding data by simp
qed

lemma kept_row_has_node:
  assumes "k < length data" and "\<not> isna (pct_change fm (map Close data) ! k)"
  shows "\<exists>t. CreateTrade t \<in> set (create_trade_nodes (annotate fm data)) \<and>
             node_trade_id t = isoformat (Gmt_time (data ! k)) \<and>
             node_volume t = Volume (data ! k)"
proof -
  let ?rets = "pct_change fm (map Close data)"
  have len: "length ?rets = length data" by (simp add: length_pct_change)
  have "(data ! k, ?rets ! k) \<in> set (zip data ?rets)"
    using assms(1) len by (metis in_set_zip fst_conv snd_conv)
  with assms(2) have "(data ! k, ?rets ! k) \<in> set (kept_rows fm data)"
    by (simp add: kept_rows_def)
  then have "(data ! k, ?rets ! k) \<in>
      set (map (\<lambda>row. (base (scored row), Return (scored row))) (annotate fm data))"
    by (simp only: annotate_kept)
  then obtain row where row: "row \<in> set (annotate fm data)" "base (scored row) = data ! k"
    by auto
  then have "create_trade_node row \<in> set (create_trade_nodes (annotate fm data))"
    by (simp add: create_trade_nodes_def)
  with row(2) show ?thesis
    by (auto simp: create_trade_node_def Let_def row_time_def)
qed

text \<open>
  C10, as amended. A row whose volume is missing after coercion is kept by the cleaning
  stage, with the volume \<open>NaN\<close>, and so reaches the annotator. It becomes a node, with
  a missing volume, when its return is not missing. The first row of the cleaned frame
  never has a return, so a row that stands first is dropped by the annotator and gets no
  node.
\<close>

theorem missing_volume_row:
  assumes "load_and_clean_data parse csv = Inr data" and "r \<in> set csv"
    and "to_numeric parse (Volume r) = NaN"
  shows "coerce_row parse (timed r) \<in> set data \<and>
         Volume (coerce_row parse (timed r)) = NaN \<and>
         (data \<noteq> [] \<longrightarrow> isna (pct_change fm (map Close data) ! 0)) \<and>
         (\<forall>k < length data.
            data ! k = coerce_row parse (timed r) \<and>
            \<not> isna (pct_change fm (map Close data) ! k) \<longrightarrow>
            (\<exists>t. CreateTrade t \<in> set (create_trade_nodes (annotate fm data)) \<and>
                 node_trade_id t = isoformat (Gmt_time (data ! k)) \<and>
                 isna (node_volume t)))"
proof (intro conjI)
  show "coerce_row parse (timed r) \<in> set data"
    using assms by (intro in_cleaned) auto
  show vol: "Volume (coerce_row parse (timed r)) = NaN"
    using assms(3) by (simp add: coerce_row_def timed_def set_time_def)
  show "data \<noteq> [] \<longrightarrow> isna (pct_change fm (map Close data) ! 0)"
    by (simp add: pct_change_first)
  show "\<forall>k < length data.
            data ! k = coerce_row parse (timed r) \<and>
            \<not> isna (pct_change fm (map Close data) ! k) \<longrightarrow>
            (\<exists>t. CreateTrade t \<in> set (create_trade_nodes (annotate fm data)) \<and>
                 node_trade_id t = isoformat (Gmt_time (data ! k)) \<and>
                 isna (node_volume t))"
  proof (intro allI impI)
    fix k assume k: "k < length data"
      and h: "data ! k = coerce_row parse (timed r) \<and> \<not> isna (pct_change fm (map Close data) ! k)"
    from kept_row_has_node [OF k] h obtain t where
      "CreateTrade t \<in> set (create_trade_nodes (annotate fm data))"
      "node_trade_id t = isoformat (Gmt_time (data ! k))"
      "node_volume t = Volume (data ! k)" by blast
    with h vol show "\<exists>t. CreateTrade t \<in> set (create_trade_nodes (annotate fm data)) \<and>
                 node_trade_id t = isoformat (Gmt_time (data ! k)) \<and>
                 isna (node_volume t)" by auto
  qed
qed

lemma ex_midvol_cleaned:
  "load_and_clean_data ex_parse ex_csv_midvol = Inr [ob 1 1 1 20, nan_vol 2 1 2, ob 3 2 4 30]"
  by (simp add: load_and_clean_data_def ex_csv_midvol_def raw_of_def set_time_def
      coerce_row_def ob_def nan_vol_def ex_parse_def)

lemma ex_badvol_cleaned:
  "load_and_clean_data ex_parse ex_csv_badvol = Inr [nan_vol 1 1 1, ob 2 1 2 20, ob 3 2 4 30]"
  by (simp add: load_and_clean_data_def ex_csv_badvol_def raw_of_def set_time_def
      coerce_row_def ob_def nan_vol_def ex_parse_def)

lemma ex_flat_returns3: "pct_change fm [Fin 1, Fin 2, Fin 4] = [NaN, Fin 1, Fin 1]"
  by (cases fm) (simp_all add: pct_change_def ffill_def shift_def fsub_def)

text \<open>
  The volume of the second row is the text \<open>abc\<close>: the row is kept by the cleaning
  stage and the graph has its node, of time 2, with a missing volume.
\<close>

theorem missing_volume_row_witness:
  "load_and_clean_data ex_parse ex_csv_midvol = Inr [ob 1 1 1 20, nan_vol 2 1 2, ob 3 2 4 30] \<and>
   nan_vol 2 1 2 \<in> set [ob 1 1 1 20, nan_vol 2 1 2, ob 3 2 4 30] \<and>
   Volume (nan_vol 2 1 2) = NaN \<and>
   (\<exists>t. CreateTrade t \<in>
           set (create_trade_nodes (annotate Pad [ob 1 1 1 20, nan_vol 2 1 2, ob 3 2 4 30])) \<and>
        node_trade_id t = Ts 2 \<and> isna (node_volume t))"
proof -
  let ?r = "raw_of 2 (NumCell (Fin 1)) (NumCell (Fin 2)) (TextCell ''abc'')"
  let ?data = "[ob 1 1 1 20, nan_vol 2 1 2, ob 3 2 4 30]"
  have mem: "?r \<in> set ex_csv_midvol" by (simp add: ex_csv_midvol_def)
  have nan: "to_numeric ex_parse (Volume ?r) = NaN" by (simp add: raw_of_def ex_parse_def)
  have row: "coerce_row ex_parse (timed ?r) = nan_vol 2 1 2"
    by (simp add: coerce_row_def timed_def set_time_def raw_of_def nan_vol_def ex_parse_def)
  have k: "(1::nat) < length ?data" by simp
  have at: "?data ! 1 = coerce_row ex_parse (timed ?r)" by (simp add: row)
  have ret: "\<not> isna (pct_change Pad (map Close ?data) ! 1)"
    by (simp add: ob_def nan_vol_def ex_flat_returns3)
  note main = missing_volume_row [OF ex_midvol_cleaned mem nan, of Pad]
  from main have 1: "coerce_row ex_parse (timed ?r) \<in> set ?data"
    and 2: "Volume (coerce_row ex_parse (timed ?r)) = NaN" by blast+
  from main k at ret obtain t where
    "CreateTrade t \<in> set (create_trade_nodes (annotate Pad ?data))"
    "node_trade_id t = isoformat (Gmt_time (?data ! 1))" "isna (node_volume t)"
    by blast
  moreover have "isoformat (Gmt_time (?data ! 1)) = Ts 2" by (simp add: isoformat_def nan_vol_def)
  ultimately have 3: "\<exists>t. CreateTrade t \<in> set (create_trade_nodes (annotate Pad ?data)) \<and>
        node_trade_id t = Ts 2 \<and> isna (node_volume t)" by auto
  from 1 2 3 ex_midvol_cleaned show ?thesis unfolding row by blast
qed

lemma ex_badvol_scored:
  "detect_outliers fm [nan_vol 1 1 1, ob 2 1 2 20, ob 3 2 4 30] 3 =
     [\<lparr>base = ob 2 1 2 20, Return = Fin 1, z_score = NaN, is_outlier = False\<rparr>,
      \<lparr>base = ob 3 2 4 30, Return = Fin 1, z_score = NaN, is_outlier = False\<rparr>]"
  by (simp add: detect_outliers_def Let_def ob_def nan_vol_def ex_flat_returns3)
    (simp add: mean_def std_def fsum_def fsub_def fgt_def signed_inf_def)

lemma ex_badvol_flagged:
  "annotate fm [nan_vol 1 1 1, ob 2 1 2 20, ob 3 2 4 30] =
     [\<lparr>scored = \<lparr>base = ob 2 1 2 20, Return = Fin 1, z_score = NaN, is_outlier = False\<rparr>,
       deviates_guideline = True\<rparr>,
      \<lparr>scored = \<lparr>base = ob 3 2 4 30, Return = Fin 1, z_score = NaN, is_outlier = False\<rparr>,
       deviates_guideline = True\<rparr>]"
  unfolding annotate_def ex_badvol_scored
  by (simp add: compute_guideline_deviation_def Let_def quantile_def sort_floats_def lerp_def
      fsub_def fgt_def ob_def mean_def std_def fsum_def)

text \<open>
  C10 as stated fails when the row stands first. The volume of the first row is the text
  \<open>abc\<close>: the cleaning stage keeps the row, the annotator drops it for its missing
  return, and the script creates the nodes of the times 2 and 3 only.
\<close>

theorem first_row_missing_volume_no_node:
  "load_and_clean_data ex_parse ex_csv_badvol =
     Inr [nan_vol 1 1 1, ob 2 1 2 20, ob 3 2 4 30] \<and>
   Volume (nan_vol 1 1 1) = NaN \<and>
   create_graph ex_parse Pad ex_csv_badvol =
     Inr [CreateTrade
            \<lparr>node_trade_id = Ts 2, node_timestamp = Ts 2, node_open = Fin 1, node_high = Fin 1,
             node_low = Fin 1, node_close = Fin 2, node_volume = Fin 20,
             node_is_outlier = False, node_deviates_guideline = True\<rparr>,
          CreateTrade
            \<lparr>node_trade_id = Ts 3, node_timestamp = Ts 3, node_open = Fin 2, node_high = Fin 2,
             node_low = Fin 2, node_close = Fin 4, node_volume = Fin 30,
             node_is_outlier = False, node_deviates_guideline = True\<rparr>,
          CreateNext (Ts 2) (Ts 3)]"
proof (intro conjI)
  show "load_and_clean_data ex_parse ex_csv_badvol =
     Inr [nan_vol 1 1 1, ob 2 1 2 20, ob 3 2 4 30]" by (rule ex_badvol_cleaned)
  show "Volume (nan_vol 1 1 1) = NaN" by (simp add: nan_vol_def)
  show "create_graph ex_parse Pad ex_csv_badvol =
     Inr [CreateTrade
            \<lparr>node_trade_id = Ts 2, node_timestamp = Ts 2, node_open = Fin 1, node_high = Fin 1,
             node_low = Fin 1, node_close = Fin 2, node_volume = Fin 20,
             node_is_outlier = False, node_deviates_guideline = True\<rparr>,
          CreateTrade
            \<lparr>node_trade_id = Ts 3, node_timestamp = Ts 3, node_open = Fin 2, node_high = Fin 2,
             node_low = Fin 2, node_close = Fin 4, node_volume = Fin 30,
             node_is_outlier = False, node_deviates_guideline = True\<rparr>,
          CreateNext (Ts 2) (Ts 3)]"
    by (simp add: create_graph_def ex_badvol_cleaned ex_badvol_flagged
        graph_writes_def create_trade_nodes_def create_trade_node_def Let_def row_time_def
        isoformat_def trade_ids_def sort_values_def consecutive_relationships_def trade_list_def
        similar_relationships_def similar_step_def SIMILAR_THRESHOLD_def)
      (simp add: ob_def fsub_def upt_rec)
qed

section \<open>Cells that are no numbers\<close>

lemma isna_iff: "isna x \<longleftrightarrow> x = NaN"
  by (cases x) simp_all

lemma pct_change_NoFill_missing:
  assumes "k < length xs" and "isna (xs ! k)"
  shows "isna (pct_change NoFill xs ! k)"
  using assms by (simp add: pct_change_nth filled_def isna_iff fsub_NaN_left)

lemma NoFill_kept_close:
  assumes "r \<in> set (detect_outliers NoFill data threshold)"
  shows "\<not> isna (Close (base r))"
proof
  assume miss: "isna (Close (base r))"
  let ?rets = "pct_change NoFill (map Close data)"
  from assms have "(base r, Return r) \<in> set (map (\<lambda>r. (base r, Return r))
      (detect_outliers NoFill data threshold))" by force
  then have in_kept: "(base r, Return r) \<in> set (kept_rows NoFill data)"
    by (simp only: detect_outliers_kept)
  then have "(base r, Return r) \<in> set (zip data ?rets)" and ok: "\<not> isna (Return r)"
    by (simp_all add: kept_rows_def)
  then obtain k where k: "k < length data" "data ! k = base r" "?rets ! k = Return r"
    by (auto simp: in_set_zip)
  then have "isna (map Close data ! k)" using miss by simp
  then have "isna (?rets ! k)" using k(1) by (intro pct_change_NoFill_missing) simp_all
  with k(3) ok show False by simp
qed

lemma quantile_skipna: "quantile q (filter (\<lambda>x. \<not> isna x) xs) = quantile q xs"
  by (simp add: quantile_def)

text \<open>
  C9, as amended. A text that is no number becomes \<open>NaN\<close>. The load fails only on a
  time field that cannot be parsed, whatever the numeric cells hold; when it succeeds,
  every row as read whose volume is not 0 is in the cleaned frame. The percentiles, the
  mean and the standard deviation skip missing values. When \<open>pct_change\<close> does not fill,
  no row the annotator keeps has a missing close, so such a row is left out of the return
  statistics. With the forward fill this does not hold: see the counterexample.
\<close>

theorem coercion_failure_is_missing:
  assumes "Garbled \<notin> set (map Gmt_time csv)"
  shows "(parse s = None \<longrightarrow> to_numeric parse (TextCell s) = NaN) \<and>
         (\<exists>data. load_and_clean_data parse csv = Inr data \<and>
            (\<forall>r \<in> set csv. to_numeric parse (Volume r) \<noteq> Fin 0 \<longrightarrow>
               coerce_row parse (timed r) \<in> set data) \<and>
            (\<forall>r \<in> set (detect_outliers NoFill data threshold). \<not> isna (Close (base r)))) \<and>
         quantile q xs = quantile q (filter (\<lambda>x. \<not> isna x) xs) \<and>
         mean xs = mean (filter (\<lambda>x. \<not> isna x) xs) \<and>
         std xs = std (filter (\<lambda>x. \<not> isna x) xs)"
proof (intro conjI)
  show "parse s = None \<longrightarrow> to_numeric parse (TextCell s) = NaN" by simp
  let ?data = "filter (\<lambda>r. Volume r \<noteq> Fin 0)
              (map (coerce_row parse) (drop_duplicates (map timed csv)))"
  have run: "load_and_clean_data parse csv = Inr ?data"
    using assms load_and_clean_data_Inr by blast
  moreover have "\<forall>r \<in> set csv. to_numeric parse (Volume r) \<noteq> Fin 0 \<longrightarrow>
               coerce_row parse (timed r) \<in> set ?data"
    using in_cleaned [OF run] by blast
  moreover have "\<forall>r \<in> set (detect_outliers NoFill ?data threshold). \<not> isna (Close (base r))"
    using NoFill_kept_close by blast
  ultimately show "\<exists>data. load_and_clean_data parse csv = Inr data \<and>
            (\<forall>r \<in> set csv. to_numeric parse (Volume r) \<noteq> Fin 0 \<longrightarrow>
               coerce_row parse (timed r) \<in> set data) \<and>
            (\<forall>r \<in> set (detect_outliers NoFill data threshold). \<not> isna (Close (base r)))"
    by blast
  show "quantile q xs = quantile q (filter (\<lambda>x. \<not> isna x) xs)" by (simp add: quantile_skipna)
  show "mean xs = mean (filter (\<lambda>x. \<not> isna x) xs)" by (simp add: mean_skipna)
  show "std xs = std (filter (\<lambda>x. \<not> isna x) xs)" by (simp add: std_skipna)
qed

lemma ex_lastclose_cleaned:
  "load_and_clean_data ex_parse ex_csv_lastclose =
     Inr [ob 1 1 1 10, ob 2 1 2 20, nan_close 3 2 30]"
  by (simp add: load_and_clean_data_def ex_csv_lastclose_def raw_of_def set_time_def
      coerce_row_def ob_def nan_close_def ex_parse_def)

lemma ex_badclose_cleaned:
  "load_and_clean_data ex_parse ex_csv_badclose =
     Inr [ob 1 1 1 10, nan_close 2 1 20, ob 3 2 2 30]"
  by (simp add: load_and_clean_data_def ex_csv_badclose_def raw_of_def set_time_def
      coerce_row_def ob_def nan_close_def ex_parse_def)

lemma ex_lastclose_kept:
  "map (\<lambda>r. (base r, Return r))
     (detect_outliers NoFill [ob 1 1 1 10, ob 2 1 2 20, nan_close 3 2 30] 3) =
   [(ob 2 1 2 20, Fin 1)]"
  by (simp only: detect_outliers_kept)
    (simp add: kept_rows_def pct_change_def ob_def nan_close_def shift_def fsub_def)

text \<open>
  The close of the last row is the text \<open>abc\<close>: the load succeeds, the row is in the
  cleaned frame with a missing close, and without fill the annotator keeps the second row
  only.
\<close>

theorem coercion_failure_is_missing_witness:
  "load_and_clean_data ex_parse ex_csv_lastclose =
     Inr [ob 1 1 1 10, ob 2 1 2 20, nan_close 3 2 30] \<and>
   to_numeric ex_parse (TextCell ''abc'') = NaN \<and>
   nan_close 3 2 30 \<in> set [ob 1 1 1 10, ob 2 1 2 20, nan_close 3 2 30] \<and>
   map (\<lambda>r. (base r, Return r))
     (detect_outliers NoFill [ob 1 1 1 10, ob 2 1 2 20, nan_close 3 2 30] 3) =
     [(ob 2 1 2 20, Fin 1)] \<and>
   quantile (5 / 100) [Fin 10, NaN, Fin 30] = quantile (5 / 100) [Fin 10, Fin 30]"
proof -
  let ?data = "[ob 1 1 1 10, ob 2 1 2 20, nan_close 3 2 30]"
  let ?r = "raw_of 3 (NumCell (Fin 2)) (TextCell ''abc'') (NumCell (Fin 30))"
  have ok: "Garbled \<notin> set (map Gmt_time ex_csv_lastclose)"
    by (simp add: ex_csv_lastclose_def raw_of_def)
  have none: "ex_parse ''abc'' = None" by (simp add: ex_parse_def)
  note main = coercion_failure_is_missing [OF ok, of ex_parse "''abc''" 3 "5 / 100"
      "[Fin 10, NaN, Fin 30]"]
  from main none have 1: "to_numeric ex_parse (TextCell ''abc'') = NaN" by blast
  from main obtain data where data: "load_and_clean_data ex_parse ex_csv_lastclose = Inr data"
    and all: "\<forall>r \<in> set ex_csv_lastclose. to_numeric ex_parse (Volume r) \<noteq> Fin 0 \<longrightarrow>
               coerce_row ex_parse (timed r) \<in> set data" by blast
  from data have eq: "data = ?data" by (simp add: ex_lastclose_cleaned)
  have "?r \<in> set ex_csv_lastclose" "to_numeric ex_parse (Volume ?r) \<noteq> Fin 0"
    by (simp_all add: ex_csv_lastclose_def raw_of_def)
  with all have "coerce_row ex_parse (timed ?r) \<in> set data" by blast
  moreover have "coerce_row ex_parse (timed ?r) = nan_close 3 2 30"
    by (simp add: coerce_row_def timed_def set_time_def raw_of_def nan_close_def ex_parse_def)
  ultimately have 2: "nan_close 3 2 30 \<in> set ?data" using eq by simp
  from main have 3: "quantile (5 / 100) [Fin 10, NaN, Fin 30] =
      quantile (5 / 100) (filter (\<lambda>x. \<not> isna x) [Fin 10, NaN, Fin 30])" by blast
  from 1 2 3 ex_lastclose_cleaned ex_lastclose_kept show ?thesis by simp
qed

lemma ex_badclose_returns: "pct_change Pad [Fin 1, NaN, Fin 2] = [NaN, Fin 0, Fin 1]"
  by (simp add: pct_change_def ffill_def shift_def fsub_def)

text \<open>
  C9 as stated fails under the forward fill. The close of the second row is the text
  \<open>abc\<close>. The fill puts the close of the first row in its place, so the row is kept
  with the return 0, and the mean of the returns, \<open>1 / 2\<close>, counts it.
\<close>

theorem padded_close_counts_in_statistics:
  "load_and_clean_data ex_parse ex_csv_badclose =
     Inr [ob 1 1 1 10, nan_close 2 1 20, ob 3 2 2 30] \<and>
   Close (nan_close 2 1 20) = NaN \<and>
   map (\<lambda>r. (base r, Return r))
     (detect_outliers Pad [ob 1 1 1 10, nan_close 2 1 20, ob 3 2 2 30] 3) =
     [(nan_close 2 1 20, Fin 0), (ob 3 2 2 30, Fin 1)] \<and>
   mean (map Return (detect_outliers Pad [ob 1 1 1 10, nan_close 2 1 20, ob 3 2 2 30] 3)) =
     Fin (1 / 2)"
proof (intro conjI)
  show "load_and_clean_data ex_parse ex_csv_badclose =
     Inr [ob 1 1 1 10, nan_close 2 1 20, ob 3 2 2 30]" by (rule ex_badclose_cleaned)
  show "Close (nan_close 2 1 20) = NaN" by (simp add: nan_close_def)
  show "map (\<lambda>r. (base r, Return r))
     (detect_outliers Pad [ob 1 1 1 10, nan_close 2 1 20, ob 3 2 2 30] 3) =
     [(nan_close 2 1 20, Fin 0), (ob 3 2 2 30, Fin 1)]"
    by (simp only: detect_outliers_kept)
      (simp add: kept_rows_def ob_def nan_close_def ex_badclose_returns)
  show "mean (map Return (detect_outliers Pad [ob 1 1 1 10, nan_close 2 1 20, ob 3 2 2 30] 3)) =
     Fin (1 / 2)"
    by (simp add: Return_detect_outliers ob_def nan_close_def ex_badclose_returns)
      (simp add: mean_def fsum_def)
qed

section \<open>The order of the writes and the chain of NEXT relationships\<close>

lemma pairs_zip_tl:
  "map (\<lambda>i. f (ids ! i) (ids ! (i + 1))) [0 ..< length ids - 1] =
   map (\<lambda>(a, b). f a b) (zip ids (tl ids))"
  by (rule nth_equalityI) (simp_all add: nth_tl)

lemma consecutive_relationships_zip:
  "consecutive_relationships ids = map (\<lambda>(a, b). CreateNext a b) (zip ids (tl ids))"
  unfolding consecutive_relationships_def by (rule pairs_zip_tl)

lemma graph_writes_eq:
  "graph_writes t data =
     Inr (create_trade_nodes data @ consecutive_relationships (trade_ids data) @
          map (similar_edge (trade_list data))
            (filter (near t (trade_list data)) (index_pairs (length (trade_list data)))))"
  by (simp add: graph_writes_def similar_relationships_eq)

lemma node_ids_append: "node_ids (xs @ ys) = node_ids xs @ node_ids ys"
  by (induction xs rule: node_ids.induct) simp_all

lemma next_edges_append: "next_edges (xs @ ys) = next_edges xs @ next_edges ys"
  by (induction xs rule: next_edges.induct) simp_all

lemma node_ids_next: "node_ids (map (\<lambda>(a, b). CreateNext a b) ps) = []"
  by (induction ps) auto

lemma node_ids_similar: "node_ids (map (similar_edge trades) ps) = []"
  by (induction ps) (auto simp: similar_edge_def)

lemma next_edges_nodes: "next_edges (create_trade_nodes data) = []"
  by (induction data) (simp_all add: create_trade_nodes_def create_trade_node_def Let_def)

lemma next_edges_next: "next_edges (map (\<lambda>(a, b). CreateNext a b) ps) = ps"
  by (induction ps) auto

lemma next_edges_similar: "next_edges (map (similar_edge trades) ps) = []"
  by (induction ps) (auto simp: similar_edge_def)

lemma node_ids_graph_writes:
  assumes "graph_writes t data = Inr ws"
  shows "node_ids ws = map row_time data"
  using assms unfolding graph_writes_eq consecutive_relationships_zip
  by (auto simp: node_ids_append node_ids_next node_ids_similar node_ids_create_trade_nodes
      isoformat_def)

lemma next_edges_graph_writes:
  assumes "graph_writes t data = Inr ws"
  shows "next_edges ws = zip (trade_ids data) (tl (trade_ids data))"
  using assms unfolding graph_writes_eq consecutive_relationships_zip
  by (auto simp: next_edges_append next_edges_nodes next_edges_next next_edges_similar)

lemma inj_time_key: "inj time_key"
proof (rule injI)
  fix a b assume "time_key a = time_key b"
  then show "a = b" by (cases a; cases b) simp_all
qed

lemma map_insort_key:
  "map f (insort_key (\<lambda>a. k (f a)) x xs) = insort_key k (f x) (map f xs)"
  by (induction xs) simp_all

lemma map_sort_key: "map f (sort_key (\<lambda>a. k (f a)) xs) = sort_key k (map f xs)"
  by (induction xs) (simp_all add: map_insort_key)

lemma trade_ids_sort: "trade_ids data = sort_key time_key (map row_time data)"
  by (simp add: trade_ids_def sort_values_def isoformat_def map_sort_key)

lemma mset_trade_ids: "mset (trade_ids data) = mset (map row_time data)"
  by (simp add: trade_ids_sort)

lemma length_trade_ids: "length (trade_ids data) = length data"
  by (simp add: trade_ids_sort)

lemma sorted_trade_ids: "sorted (map time_key (trade_ids data))"
  by (simp add: trade_ids_sort)

lemma ascending_trade_ids:
  "sorted_wrt (\<lambda>a b. time_key a \<le> time_key b) (trade_ids data)"
  using sorted_trade_ids [of data] by (simp add: sorted_wrt_map)

lemma distinct_trade_ids:
  "distinct (map row_time data) \<Longrightarrow> distinct (trade_ids data)"
  using mset_trade_ids [of data] by (metis mset_eq_imp_distinct_iff)

lemma strict_trade_ids:
  assumes "distinct (map row_time data)"
  shows "sorted_wrt (\<lambda>a b. time_key a < time_key b) (trade_ids data)"
proof -
  have "distinct (map time_key (trade_ids data))"
    using distinct_trade_ids [OF assms] inj_time_key
    by (simp add: distinct_map inj_on_def inj_def)
  with sorted_trade_ids [of data] have "sorted_wrt (<) (map time_key (trade_ids data))"
    by (simp add: strict_sorted_iff)
  then show ?thesis by (simp add: sorted_wrt_map)
qed

lemma set_trade_ids: "set (trade_ids data) = set (map row_time data)"
  using mset_trade_ids [of data] by (rule mset_eq_setD)

lemma between_consecutive:
  assumes "sorted_wrt (\<lambda>a b. time_key a < time_key b) path"
    and "(a, b) \<in> set (zip path (tl path))" and "c \<in> set path"
  shows "time_key a < time_key b \<and> \<not> (time_key a < time_key c \<and> time_key c < time_key b)"
proof -
  from assms(2) obtain i where i: "i < length path" "i < length (tl path)"
    "path ! i = a" "tl path ! i = b"
    by (auto simp: in_set_zip)
  then have b: "path ! (i + 1) = b" and i1: "i + 1 < length path" by (simp_all add: nth_tl)
  from assms(3) obtain j where j: "j < length path" "path ! j = c"
    by (auto simp: in_set_conv_nth)
  have less: "time_key (path ! m) < time_key (path ! n)" if "m < n" "n < length path" for m n
    using sorted_wrt_nth_less [OF assms(1) that] .
  have ab: "time_key a < time_key b" using less [of i "i + 1"] i b i1 by simp
  consider "j < i" | "j = i" | "j = i + 1" | "i + 1 < j" by linarith
  then have "\<not> (time_key a < time_key c \<and> time_key c < time_key b)"
  proof cases
    case 1
    then show ?thesis using less [of j i] i j by auto
  next
    case 2
    then show ?thesis using i j by auto
  next
    case 3
    then show ?thesis using b j by auto
  next
    case 4
    then show ?thesis using less [of "i + 1" j] b j by auto
  qed
  with ab show ?thesis by simp
qed

lemma length_zip_tl: "length (zip xs (tl xs)) = length xs - 1"
  by simp

lemma Chart_init_eq:
  "Chart_init data =
     (set (trade_ids (take 100 data)),
      set (zip (trade_ids (take 100 data)) (tl (trade_ids (take 100 data)))))"
proof -
  let ?p = "trade_ids (take 100 data)"
  let ?e = "set (zip ?p (tl ?p))"
  have e: "set (map (\<lambda>i. (?p ! i, ?p ! (i + 1))) [0 ..< length ?p - 1]) = ?e"
    using pairs_zip_tl [of Pair ?p] by simp
  have "fst ` ?e \<subseteq> set ?p" by (auto dest: set_zip_leftD)
  moreover have "snd ` ?e \<subseteq> set ?p"
  proof
    fix x assume "x \<in> snd ` ?e"
    then obtain a where "(a, x) \<in> ?e" by auto
    then have "x \<in> set (tl ?p)" by (rule set_zip_rightD)
    then show "x \<in> set ?p" by (cases ?p) auto
  qed
  ultimately have "set ?p \<union> fst ` ?e \<union> snd ` ?e = set ?p" by blast
  then show ?thesis
    unfolding Chart_init_def Let_def e
    by (simp add: set_trade_ids isoformat_def)
qed

lemma card_zip_tl: "distinct xs \<Longrightarrow> card (set (zip xs (tl xs))) = card (set xs) - 1"
proof -
  assume d: "distinct xs"
  then have "distinct (zip xs (tl xs))" by (rule distinct_zipI1)
  then have "card (set (zip xs (tl xs))) = length (zip xs (tl xs))" by (rule distinct_card)
  also have "\<dots> = length xs - 1" by simp
  also have "\<dots> = card (set xs) - 1" using d by (simp add: distinct_card)
  finally show ?thesis .
qed

text \<open>
  C2. The script never raises while it writes. Its NEXT relationships are the pairs of
  neighbours of \<open>path\<close>, the identifiers of the nodes sorted by time, so there is one
  less than there are nodes. The identifier of a node is its timestamp, which the
  specification takes to be unique: when the identifiers are pairwise distinct, \<open>path\<close>
  names every node once, in strictly ascending time, and every NEXT relationship goes
  from a node to a later one with no node in between, so the relationships form one
  simple path from the earliest node through all nodes. The same holds of the graph that
  \<open>Chart.__init__\<close> builds of the first 100 rows.
\<close>

theorem next_edges_chain:
  "\<exists>ws path.
     graph_writes threshold data = Inr ws \<and>
     node_ids ws = map (\<lambda>row. isoformat (row_time row)) data \<and>
     length (next_edges ws) = length (node_ids ws) - 1 \<and>
     next_edges ws = zip path (tl path) \<and>
     mset path = mset (node_ids ws) \<and>
     sorted_wrt (\<lambda>a b. time_key a \<le> time_key b) path \<and>
     (distinct (node_ids ws) \<longrightarrow>
        distinct path \<and>
        sorted_wrt (\<lambda>a b. time_key a < time_key b) path \<and>
        (\<forall>(a, b) \<in> set (next_edges ws). \<forall>c \<in> set (node_ids ws).
           time_key a < time_key b \<and> \<not> (time_key a < time_key c \<and> time_key c < time_key b))) \<and>
     (\<exists>shown. Chart_init data = (set shown, set (zip shown (tl shown))) \<and>
        mset shown = mset (map (\<lambda>row. isoformat (row_time row)) (take 100 data)) \<and>
        sorted_wrt (\<lambda>a b. time_key a \<le> time_key b) shown \<and>
        (distinct (take 100 (node_ids ws)) \<longrightarrow>
           distinct shown \<and>
           sorted_wrt (\<lambda>a b. time_key a < time_key b) shown \<and>
           card (snd (Chart_init data)) = card (fst (Chart_init data)) - 1))"
proof -
  obtain ws where ws: "graph_writes threshold data = Inr ws" by (simp add: graph_writes_eq)
  let ?path = "trade_ids data"
  have ids: "node_ids ws = map row_time data" by (rule node_ids_graph_writes [OF ws])
  have edges: "next_edges ws = zip ?path (tl ?path)" by (rule next_edges_graph_writes [OF ws])
  have len: "length (next_edges ws) = length (node_ids ws) - 1"
    by (simp add: edges ids length_trade_ids)
  have perm: "mset ?path = mset (node_ids ws)" by (simp add: ids mset_trade_ids)
  have strict: "distinct ?path \<and>
        sorted_wrt (\<lambda>a b. time_key a < time_key b) ?path \<and>
        (\<forall>(a, b) \<in> set (next_edges ws). \<forall>c \<in> set (node_ids ws).
           time_key a < time_key b \<and> \<not> (time_key a < time_key c \<and> time_key c < time_key b))"
    if "distinct (node_ids ws)"
  proof -
    from that have d: "distinct (map row_time data)" by (simp add: ids)
    have s: "sorted_wrt (\<lambda>a b. time_key a < time_key b) ?path" by (rule strict_trade_ids [OF d])
    have "time_key a < time_key b \<and> \<not> (time_key a < time_key c \<and> time_key c < time_key b)"
      if "(a, b) \<in> set (next_edges ws)" "c \<in> set (node_ids ws)" for a b c
    proof (rule between_consecutive [OF s])
      show "(a, b) \<in> set (zip ?path (tl ?path))" using that(1) by (simp add: edges)
      show "c \<in> set ?path" using that(2) by (simp add: set_trade_ids ids)
    qed
    with s distinct_trade_ids [OF d] show ?thesis by blast
  qed
  let ?shown = "trade_ids (take 100 data)"
  have chart: "Chart_init data = (set ?shown, set (zip ?shown (tl ?shown)))"
    by (rule Chart_init_eq)
  have cperm: "mset ?shown = mset (map (\<lambda>row. isoformat (row_time row)) (take 100 data))"
    by (simp add: mset_trade_ids isoformat_def)
  have cstrict: "distinct ?shown \<and>
           sorted_wrt (\<lambda>a b. time_key a < time_key b) ?shown \<and>
           card (snd (Chart_init data)) = card (fst (Chart_init data)) - 1"
    if "distinct (take 100 (node_ids ws))"
  proof -
    from that have d: "distinct (map row_time (take 100 data))" by (simp add: ids take_map)
    have "distinct ?shown" by (rule distinct_trade_ids [OF d])
    moreover from this have "card (snd (Chart_init data)) = card (fst (Chart_init data)) - 1"
      by (simp add: chart card_zip_tl)
    ultimately show ?thesis using strict_trade_ids [OF d] by simp
  qed
  have graph: "graph_writes threshold data = Inr ws \<and>
     node_ids ws = map (\<lambda>row. isoformat (row_time row)) data \<and>
     length (next_edges ws) = length (node_ids ws) - 1 \<and>
     next_edges ws = zip ?path (tl ?path) \<and>
     mset ?path = mset (node_ids ws) \<and>
     sorted_wrt (\<lambda>a b. time_key a \<le> time_key b) ?path \<and>
     (distinct (node_ids ws) \<longrightarrow>
        distinct ?path \<and>
        sorted_wrt (\<lambda>a b. time_key a < time_key b) ?path \<and>
        (\<forall>(a, b) \<in> set (next_edges ws). \<forall>c \<in> set (node_ids ws).
           time_key a < time_key b \<and> \<not> (time_key a < time_key c \<and> time_key c < time_key b)))"
    using ws ids len edges perm ascending_trade_ids [of data] strict
    by (simp add: isoformat_def)
  have shown: "\<exists>shown. Chart_init data = (set shown, set (zip shown (tl shown))) \<and>
        mset shown = mset (map (\<lambda>row. isoformat (row_time row)) (take 100 data)) \<and>
        sorted_wrt (\<lambda>a b. time_key a \<le> time_key b) shown \<and>
        (distinct (take 100 (node_ids ws)) \<longrightarrow>
           distinct shown \<and>
           sorted_wrt (\<lambda>a b. time_key a < time_key b) shown \<and>
           card (snd (Chart_init data)) = card (fst (Chart_init data)) - 1)"
    using chart cperm ascending_trade_ids [of "take 100 data"] cstrict
    by (intro exI [of _ ?shown]) simp
  from graph shown show ?thesis by blast
qed

lemma row_times_annotate:
  "map row_time (annotate fm data) = map (\<lambda>(r, x). Gmt_time r) (kept_rows fm data)"
  using node_ids_annotate [of fm data]
  by (simp add: node_ids_create_trade_nodes isoformat_def)

lemma trade_list_annotate:
  "trade_list (annotate fm data) = map (\<lambda>(r, x). (Gmt_time r, Open r)) (kept_rows fm data)"
proof -
  have "trade_list (annotate fm data) =
        map (\<lambda>(r, x). (Gmt_time r, Open r))
          (map (\<lambda>row. (base (scored row), Return (scored row))) (annotate fm data))"
    by (simp add: trade_list_def row_time_def isoformat_def comp_def)
  then show ?thesis by (simp only: annotate_kept)
qed

lemma ex_shuffled_kept:
  "kept_rows fm ex_shuffled = [(ob 3 1 2 20, Fin 1), (ob 2 2 6 30, Fin 2), (ob 4 6 24 1000, Fin 3)]"
proof -
  have "map Close ex_shuffled = map Close ex_obs" by (simp add: ex_shuffled_def ex_obs_def ob_def)
  then show ?thesis
    by (simp add: kept_rows_def ex_obs_returns) (simp add: ex_shuffled_def)
qed

lemma ex_shuffled_times: "map row_time (annotate fm ex_shuffled) = [Ts 3, Ts 2, Ts 4]"
  by (simp add: row_times_annotate ex_shuffled_kept ob_def)

text \<open>
  The annotator keeps the rows of the times 3, 2 and 4 of \<open>ex_shuffled\<close>, in this
  order: the NEXT relationships are 2 to 3 and 3 to 4.
\<close>

theorem next_edges_chain_witness:
  "\<exists>ws. graph_writes SIMILAR_THRESHOLD (annotate Pad ex_shuffled) = Inr ws \<and>
     node_ids ws = [Ts 3, Ts 2, Ts 4] \<and>
     next_edges ws = [(Ts 2, Ts 3), (Ts 3, Ts 4)] \<and>
     length (next_edges ws) = length (node_ids ws) - 1 \<and>
     distinct (node_ids ws) \<and>
     (\<exists>path. next_edges ws = zip path (tl path) \<and> mset path = mset (node_ids ws) \<and>
        distinct path \<and> sorted_wrt (\<lambda>a b. time_key a < time_key b) path) \<and>
     Chart_init (annotate Pad ex_shuffled) =
       ({Ts 2, Ts 3, Ts 4}, {(Ts 2, Ts 3), (Ts 3, Ts 4)})"
proof -
  from next_edges_chain [of SIMILAR_THRESHOLD "annotate Pad ex_shuffled"]
  obtain ws path where ws: "graph_writes SIMILAR_THRESHOLD (annotate Pad ex_shuffled) = Inr ws"
    and ids: "node_ids ws = map (\<lambda>row. isoformat (row_time row)) (annotate Pad ex_shuffled)"
    and len: "length (next_edges ws) = length (node_ids ws) - 1"
    and path: "next_edges ws = zip path (tl path)" "mset path = mset (node_ids ws)"
    and strict: "distinct (node_ids ws) \<longrightarrow>
        distinct path \<and> sorted_wrt (\<lambda>a b. time_key a < time_key b) path"
    by blast
  have ids': "node_ids ws = [Ts 3, Ts 2, Ts 4]"
    using ids ex_shuffled_times [of Pad] by (simp add: isoformat_def)
  then have d: "distinct (node_ids ws)" by simp
  have "trade_ids (annotate Pad ex_shuffled) = [Ts 2, Ts 3, Ts 4]"
    by (simp add: trade_ids_sort ex_shuffled_times)
  then have edges: "next_edges ws = [(Ts 2, Ts 3), (Ts 3, Ts 4)]"
    using next_edges_graph_writes [OF ws] by simp
  have "trade_ids (take 100 (annotate Pad ex_shuffled)) = [Ts 2, Ts 3, Ts 4]"
    by (simp add: trade_ids_sort ex_shuffled_times take_map [symmetric])
  then have chart: "Chart_init (annotate Pad ex_shuffled) =
       ({Ts 2, Ts 3, Ts 4}, {(Ts 2, Ts 3), (Ts 3, Ts 4)})"
    by (simp add: Chart_init_eq)
  from ws ids' edges len d path strict chart show ?thesis by blast
qed

lemma flat_scored:
  "detect_outliers fm [ob t0 p0 1 v0, ob t1 p1 2 20, ob t2 p2 4 30] 3 =
     [\<lparr>base = ob t1 p1 2 20, Return = Fin 1, z_score = NaN, is_outlier = False\<rparr>,
      \<lparr>base = ob t2 p2 4 30, Return = Fin 1, z_score = NaN, is_outlier = False\<rparr>]"
  by (simp add: detect_outliers_def Let_def ob_def ex_flat_returns3)
    (simp add: mean_def std_def fsum_def fsub_def fgt_def signed_inf_def)

lemma flat_flagged:
  "annotate fm [ob t0 p0 1 v0, ob t1 p1 2 20, ob t2 p2 4 30] =
     [\<lparr>scored = \<lparr>base = ob t1 p1 2 20, Return = Fin 1, z_score = NaN, is_outlier = False\<rparr>,
       deviates_guideline = True\<rparr>,
      \<lparr>scored = \<lparr>base = ob t2 p2 4 30, Return = Fin 1, z_score = NaN, is_outlier = False\<rparr>,
       deviates_guideline = True\<rparr>]"
  unfolding annotate_def flat_scored
  by (simp add: compute_guideline_deviation_def Let_def quantile_def sort_floats_def lerp_def
      fsub_def fgt_def ob_def mean_def std_def fsum_def)

lemma endpoints_next:
  assumes "w \<in> set (consecutive_relationships (trade_ids data))"
  shows "\<not> is_node_write w \<and> set (endpoints w) \<subseteq> set (map row_time data)"
proof -
  from assms obtain a b where w: "w = CreateNext a b"
    and ab: "(a, b) \<in> set (zip (trade_ids data) (tl (trade_ids data)))"
    unfolding consecutive_relationships_zip by auto
  from ab have "a \<in> set (trade_ids data)" by (rule set_zip_leftD)
  moreover from ab have "b \<in> set (tl (trade_ids data))" by (rule set_zip_rightD)
  then have "b \<in> set (trade_ids data)" by (cases "trade_ids data") auto
  ultimately show ?thesis by (simp add: w set_trade_ids)
qed

lemma endpoints_similar:
  assumes "w \<in> set (map (similar_edge (trade_list data))
              (filter (near t (trade_list data)) (index_pairs (length (trade_list data)))))"
  shows "\<not> is_node_write w \<and> set (endpoints w) \<subseteq> set (map row_time data)"
proof -
  from assms obtain i j where w: "w = similar_edge (trade_list data) (i, j)"
    and ij: "(i, j) \<in> set (index_pairs (length (trade_list data)))" by auto
  from ij have "i < length data" "j < length data"
    by (simp_all add: set_index_pairs trade_list_def)
  then have "fst (trade_list data ! i) = row_time (data ! i)"
    "fst (trade_list data ! j) = row_time (data ! j)"
    "data ! i \<in> set data" "data ! j \<in> set data"
    by (simp_all add: trade_list_def isoformat_def)
  then show ?thesis by (simp add: w similar_edge_def)
qed

lemma graph_writes_phases:
  "\<exists>edges. graph_writes t data = Inr (create_trade_nodes data @ edges) \<and>
     (\<forall>w \<in> set (create_trade_nodes data). is_node_write w) \<and>
     (\<forall>w \<in> set edges. \<not> is_node_write w \<and>
        set (endpoints w) \<subseteq> set (node_ids (create_trade_nodes data)))"
proof -
  let ?edges = "consecutive_relationships (trade_ids data) @
          map (similar_edge (trade_list data))
            (filter (near t (trade_list data)) (index_pairs (length (trade_list data))))"
  have "graph_writes t data = Inr (create_trade_nodes data @ ?edges)" by (rule graph_writes_eq)
  moreover have "\<forall>w \<in> set (create_trade_nodes data). is_node_write w"
    by (auto simp: create_trade_nodes_def create_trade_node_def Let_def)
  moreover have "\<forall>w \<in> set ?edges. \<not> is_node_write w \<and>
        set (endpoints w) \<subseteq> set (node_ids (create_trade_nodes data))"
  proof
    fix w assume "w \<in> set ?edges"
    then consider "w \<in> set (consecutive_relationships (trade_ids data))"
      | "w \<in> set (map (similar_edge (trade_list data))
            (filter (near t (trade_list data)) (index_pairs (length (trade_list data)))))"
      by auto
    then have "\<not> is_node_write w \<and> set (endpoints w) \<subseteq> set (map row_time data)"
      by cases (rule endpoints_next, assumption, rule endpoints_similar, assumption)
    then show "\<not> is_node_write w \<and>
        set (endpoints w) \<subseteq> set (node_ids (create_trade_nodes data))"
      by (simp add: node_ids_create_trade_nodes isoformat_def)
  qed
  ultimately show ?thesis by blast
qed

lemma phases_positions:
  assumes nodes: "\<forall>w \<in> set nodes. is_node_write w"
    and edges: "\<forall>w \<in> set edges. \<not> is_node_write w \<and> set (endpoints w) \<subseteq> set (node_ids nodes)"
    and k: "k < length (nodes @ edges)"
  shows "set (endpoints ((nodes @ edges) ! k)) \<subseteq> set (node_ids (take k (nodes @ edges)))"
proof (cases "k < length nodes")
  case True
  then have "is_node_write ((nodes @ edges) ! k)" using nodes by (simp add: nth_append)
  then show ?thesis by (cases "(nodes @ edges) ! k") simp_all
next
  case False
  then have "(nodes @ edges) ! k \<in> set edges" using k by (simp add: nth_append)
  moreover from False have "take k (nodes @ edges) = nodes @ take (k - length nodes) edges"
    by simp
  ultimately show ?thesis using edges by (auto simp: node_ids_append)
qed

text \<open>
  C8. A run of the script raises only if the loader raises, before any write. Otherwise
  the writes are the node writes followed by the relationship writes, every relationship
  write refers to identifiers of nodes written in the first phase, and at every position
  of the write list the identifiers the write refers to are those of nodes written at
  earlier positions.
\<close>

theorem node_writes_before_edge_writes:
  "case create_graph parse fm csv of
     Inl e \<Rightarrow> load_and_clean_data parse csv = Inl e
   | Inr ws \<Rightarrow>
       (\<exists>nodes edges. ws = nodes @ edges \<and>
          (\<forall>w \<in> set nodes. is_node_write w) \<and>
          (\<forall>w \<in> set edges. \<not> is_node_write w \<and>
             set (endpoints w) \<subseteq> set (node_ids nodes))) \<and>
       (\<forall>k < length ws. set (endpoints (ws ! k)) \<subseteq> set (node_ids (take k ws)))"
proof (cases "load_and_clean_data parse csv")
  case (Inl e)
  then show ?thesis by (simp add: create_graph_def)
next
  case (Inr cleaned)
  let ?data = "annotate fm cleaned"
  from graph_writes_phases [of SIMILAR_THRESHOLD ?data]
  obtain edges where ws: "graph_writes SIMILAR_THRESHOLD ?data = Inr (create_trade_nodes ?data @ edges)"
    and nodes: "\<forall>w \<in> set (create_trade_nodes ?data). is_node_write w"
    and edges: "\<forall>w \<in> set edges. \<not> is_node_write w \<and>
        set (endpoints w) \<subseteq> set (node_ids (create_trade_nodes ?data))"
    by blast
  let ?ws = "create_trade_nodes ?data @ edges"
  have run: "create_graph parse fm csv = Inr ?ws" by (simp add: create_graph_def Inr ws)
  have split: "\<exists>nodes edges. ?ws = nodes @ edges \<and>
          (\<forall>w \<in> set nodes. is_node_write w) \<and>
          (\<forall>w \<in> set edges. \<not> is_node_write w \<and>
             set (endpoints w) \<subseteq> set (node_ids nodes))"
    using nodes edges by blast
  have pos: "\<forall>k < length ?ws. set (endpoints (?ws ! k)) \<subseteq> set (node_ids (take k ?ws))"
    using phases_positions [OF nodes edges] by blast
  from split pos show ?thesis unfolding run by simp
qed

lemma ex_chain_cleaned:
  "load_and_clean_data ex_parse ex_csv_chain = Inr [ob 1 1 1 10, ob 2 1 2 20, ob 3 1 4 30]"
  by (simp add: load_and_clean_data_def ex_csv_chain_def raw_def raw_of_def set_time_def
      coerce_row_def ob_def)

lemma ex_chain_writes:
  "create_graph ex_parse Pad ex_csv_chain =
     Inr [CreateTrade
            \<lparr>node_trade_id = Ts 2, node_timestamp = Ts 2, node_open = Fin 1, node_high = Fin 1,
             node_low = Fin 1, node_close = Fin 2, node_volume = Fin 20,
             node_is_outlier = False, node_deviates_guideline = True\<rparr>,
          CreateTrade
            \<lparr>node_trade_id = Ts 3, node_timestamp = Ts 3, node_open = Fin 1, node_high = Fin 1,
             node_low = Fin 1, node_close = Fin 4, node_volume = Fin 30,
             node_is_outlier = False, node_deviates_guideline = True\<rparr>,
          CreateNext (Ts 2) (Ts 3),
          CreateSimilar (Ts 2) (Ts 3) (Fin 1000000)]"
  by (simp add: create_graph_def ex_chain_cleaned flat_flagged
      graph_writes_def create_trade_nodes_def create_trade_node_def Let_def row_time_def
      isoformat_def trade_ids_def sort_values_def consecutive_relationships_def trade_list_def
      similar_relationships_def similar_step_def SIMILAR_THRESHOLD_def)
    (simp add: ob_def fsub_def upt_rec py_truediv_def epsilon_def)

text \<open>
  The file \<open>ex_csv_chain\<close>: two node writes, of the times 2 and 3, then the NEXT and
  the SIMILAR relationship between them.
\<close>

theorem node_writes_before_edge_writes_witness:
  "\<exists>ws. create_graph ex_parse Pad ex_csv_chain = Inr ws \<and>
     map is_node_write ws = [True, True, False, False] \<and>
     map endpoints ws = [[], [], [Ts 2, Ts 3], [Ts 2, Ts 3]] \<and>
     node_ids (take 2 ws) = [Ts 2, Ts 3] \<and>
     set (endpoints (ws ! 2)) \<subseteq> set (node_ids (take 2 ws)) \<and>
     set (endpoints (ws ! 3)) \<subseteq> set (node_ids (take 3 ws))"
proof -
  let ?ws = "[CreateTrade
            \<lparr>node_trade_id = Ts 2, node_timestamp = Ts 2, node_open = Fin 1, node_high = Fin 1,
             node_low = Fin 1, node_close = Fin 2, node_volume = Fin 20,
             node_is_outlier = False, node_deviates_guideline = True\<rparr>,
          CreateTrade
            \<lparr>node_trade_id = Ts 3, node_timestamp = Ts 3, node_open = Fin 1, node_high = Fin 1,
             node_low = Fin 1, node_close = Fin 4, node_volume = Fin 30,
             node_is_outlier = False, node_deviates_guideline = True\<rparr>,
          CreateNext (Ts 2) (Ts 3),
          CreateSimilar (Ts 2) (Ts 3) (Fin 1000000)]"
  from node_writes_before_edge_writes [where parse = ex_parse and fm = Pad and csv = ex_csv_chain]
  have pos: "\<forall>k < length ?ws. set (endpoints (?ws ! k)) \<subseteq> set (node_ids (take k ?ws))"
    unfolding ex_chain_writes by simp
  have "(2::nat) < length ?ws" "(3::nat) < length ?ws" by simp_all
  with pos have before: "set (endpoints (?ws ! 2)) \<subseteq> set (node_ids (take 2 ?ws))"
    "set (endpoints (?ws ! 3)) \<subseteq> set (node_ids (take 3 ?ws))" by blast+
  have shape: "map is_node_write ?ws = [True, True, False, False]"
    "map endpoints ?ws = [[], [], [Ts 2, Ts 3], [Ts 2, Ts 3]]"
    "node_ids (take 2 ?ws) = [Ts 2, Ts 3]" by simp_all
  show ?thesis
    by (rule exI [of _ ?ws], intro conjI) (rule ex_chain_writes shape before)+
qed

end
